theory Spec2Isabelle
  imports Main
begin

section \<open>Strings of the JavaScript runtime\<close>

text \<open>
  A JavaScript string is modelled as a \<^typ>\<open>string\<close> whose characters are code units
  below 256. A value of type \<open>string | null\<close> is a \<^typ>\<open>string option\<close>; it is
  truthy when it is present and not empty.
\<close>

definition truthy :: "string option \<Rightarrow> bool" where
  "truthy v = (case v of None \<Rightarrow> False | Some x \<Rightarrow> x \<noteq> [])"

text \<open>The string behind a truthy value (the empty string for \<open>null\<close>).\<close>

definition str_of :: "string option \<Rightarrow> string" where
  "str_of v = (case v of None \<Rightarrow> [] | Some x \<Rightarrow> x)"

text \<open>\<open>s.split(sep)\<close> for a separator of one character: never the empty list.\<close>

fun split_on :: "char \<Rightarrow> string \<Rightarrow> string list" where
  "split_on sep [] = [[]]"
| "split_on sep (c # cs) =
     (if c = sep then [] # split_on sep cs
      else (case split_on sep cs of
              [] \<Rightarrow> [[c]]
            | p # ps \<Rightarrow> (c # p) # ps))"

definition is_ws :: "char \<Rightarrow> bool" where
  "is_ws c = ((of_char c :: nat) \<in> {9, 10, 11, 12, 13, 32, 160})"

text \<open>\<open>s.trim()\<close>\<close>

definition trim :: "string \<Rightarrow> string" where
  "trim s = rev (dropWhile is_ws (rev (dropWhile is_ws s)))"

text \<open>\<open>Buffer.from(s)\<close>: the UTF-8 bytes of the code units of \<open>s\<close>.\<close>

definition utf8 :: "string \<Rightarrow> nat list" where
  "utf8 s = concat (map (\<lambda>c. let n = (of_char c :: nat) in
                               if n < 128 then [n] else [192 + n div 64, 128 + n mod 64]) s)"

definition b64_digit :: "nat \<Rightarrow> char" where
  "b64_digit n =
     (''ABCDEFGHIJKLMNOPQRSTUVWXYZabcdefghijklmnopqrstuvwxyz0123456789+/'') ! (n mod 64)"

text \<open>\<open>buf.toString\<close> with the encoding \<open>base64\<close>\<close>

fun base64 :: "nat list \<Rightarrow> string" where
  "base64 [] = []"
| "base64 [a] = [b64_digit (a div 4), b64_digit ((a mod 4) * 16), CHR ''='', CHR ''='']"
| "base64 [a, b] =
     [b64_digit (a div 4), b64_digit ((a mod 4) * 16 + b div 16),
      b64_digit ((b mod 16) * 4), CHR ''='']"
| "base64 (a # b # c # rest) =
     [b64_digit (a div 4), b64_digit ((a mod 4) * 16 + b div 16),
      b64_digit ((b mod 16) * 4 + c div 64), b64_digit (c mod 64)] @ base64 rest"


section \<open>\<open>JSON.stringify\<close> and \<open>JSON.parse\<close> on request records\<close>

text \<open>
  The record the client gate persists: \<open>{timestamp, count, fingerprint?}\<close>. Its numbers
  are integers (\<open>Date.now()\<close> and a counter).

  \<open>JSON_stringify\<close> writes a record the way \<open>JSON.stringify\<close> does: the properties in
  the order \<open>timestamp\<close>, \<open>count\<close>, \<open>fingerprint\<close> (the order in which the gate creates
  them), no white space, an absent fingerprint left out, and the characters of the
  fingerprint escaped as the standard prescribes.

  \<open>JSON_parse\<close> reads back the texts of that form and throws \<open>SyntaxError\<close> on every
  other text. Texts that are JSON of another form (other property order, white space,
  other values) are outside this model: the statements below speak of texts the gate
  wrote itself and of texts that are not JSON at all.
\<close>

datatype error = SyntaxError | ReferenceError

record RequestRecord =
  timestamp :: int
  count :: int
  fingerprint :: "string option"

text \<open>A number (an integer) as \<open>JSON.stringify\<close> and template literals write it.\<close>

definition digit_char :: "nat \<Rightarrow> char" where
  "digit_char d = char_of (48 + d)"

fun decimal_digits :: "nat \<Rightarrow> string" where
  "decimal_digits n =
     (if n < 10 then [digit_char n]
      else decimal_digits (n div 10) @ [digit_char (n mod 10)])"

definition number_text :: "int \<Rightarrow> string" where
  "number_text i =
     (if i < 0 then CHR ''-'' # decimal_digits (nat (- i)) else decimal_digits (nat i))"

definition hex_digit :: "nat \<Rightarrow> char" where
  "hex_digit k = (if k < 10 then char_of (48 + k) else char_of (87 + k))"

definition escape_char :: "char \<Rightarrow> string" where
  "escape_char c =
     (if c = CHR 0x08 then [CHR 0x5C, CHR ''b'']
      else if c = CHR 0x09 then [CHR 0x5C, CHR ''t'']
      else if c = CHR 0x0A then [CHR 0x5C, CHR ''n'']
      else if c = CHR 0x0C then [CHR 0x5C, CHR ''f'']
      else if c = CHR 0x0D then [CHR 0x5C, CHR ''r'']
      else if c = CHR 0x22 then [CHR 0x5C, CHR 0x22]
      else if c = CHR 0x5C then [CHR 0x5C, CHR 0x5C]
      else if (of_char c :: nat) < 32 then
        [CHR 0x5C, CHR ''u'', CHR ''0'', CHR ''0'',
         hex_digit (of_char c div 16), hex_digit (of_char c mod 16)]
      else [c])"

definition JSON_quote :: "string \<Rightarrow> string" where
  "JSON_quote s = CHR 0x22 # concat (map escape_char s) @ [CHR 0x22]"

definition JSON_key :: "string \<Rightarrow> string" where
  "JSON_key name = CHR 0x22 # name @ [CHR 0x22, CHR '':'']"

definition JSON_stringify :: "RequestRecord \<Rightarrow> string" where
  "JSON_stringify r =
     ''{'' @ JSON_key ''timestamp'' @ number_text (timestamp r)
     @ '','' @ JSON_key ''count'' @ number_text (count r)
     @ (case fingerprint r of
          None \<Rightarrow> []
        | Some f \<Rightarrow> '','' @ JSON_key ''fingerprint'' @ JSON_quote f)
     @ ''}''"

fun strip_prefix :: "string \<Rightarrow> string \<Rightarrow> string option" where
  "strip_prefix [] s = Some s"
| "strip_prefix (p # ps) [] = None"
| "strip_prefix (p # ps) (c # cs) = (if p = c then strip_prefix ps cs else None)"

definition is_digit :: "char \<Rightarrow> bool" where
  "is_digit c = (48 \<le> (of_char c :: nat) \<and> (of_char c :: nat) \<le> 57)"

definition nat_of_digits :: "string \<Rightarrow> nat" where
  "nat_of_digits ds = foldl (\<lambda>a c. 10 * a + (of_char c - 48)) 0 ds"

definition parse_nat :: "string \<Rightarrow> (nat \<times> string) option" where
  "parse_nat s =
     (let ds = takeWhile is_digit s in
      if ds = [] \<or> (length ds > 1 \<and> take 1 ds = ''0'') then None
      else Some (nat_of_digits ds, dropWhile is_digit s))"

definition parse_int :: "string \<Rightarrow> (int \<times> string) option" where
  "parse_int s =
     (case s of
        [] \<Rightarrow> None
      | c # cs \<Rightarrow>
          if c = CHR ''-'' then map_option (\<lambda>(n, rest). (- int n, rest)) (parse_nat cs)
          else map_option (\<lambda>(n, rest). (int n, rest)) (parse_nat s))"

definition hex_value :: "char \<Rightarrow> nat option" where
  "hex_value c =
     (let n = (of_char c :: nat) in
      if 48 \<le> n \<and> n \<le> 57 then Some (n - 48)
      else if 97 \<le> n \<and> n \<le> 102 then Some (n - 87)
      else if 65 \<le> n \<and> n \<le> 70 then Some (n - 55)
      else None)"

definition unescape_simple :: "char \<Rightarrow> char option" where
  "unescape_simple e =
     (if e = CHR ''b'' then Some (CHR 0x08)
      else if e = CHR ''t'' then Some (CHR 0x09)
      else if e = CHR ''n'' then Some (CHR 0x0A)
      else if e = CHR ''f'' then Some (CHR 0x0C)
      else if e = CHR ''r'' then Some (CHR 0x0D)
      else if e = CHR 0x22 then Some (CHR 0x22)
      else if e = CHR 0x5C then Some (CHR 0x5C)
      else if e = CHR ''/'' then Some (CHR ''/'')
      else None)"

definition unescape_unicode :: "char \<Rightarrow> char \<Rightarrow> char \<Rightarrow> char \<Rightarrow> char option" where
  "unescape_unicode a b c d =
     (case (hex_value a, hex_value b, hex_value c, hex_value d) of
        (Some h3, Some h2, Some h1, Some h0) \<Rightarrow>
          (if h3 = 0 \<and> h2 = 0 then Some (char_of (16 * h1 + h0)) else None)
      | _ \<Rightarrow> None)"

fun parse_string :: "string \<Rightarrow> (string \<times> string) option" where
  "parse_string [] = None"
| "parse_string (c # cs) =
     (if c = CHR 0x22 then Some ([], cs)
      else if c = CHR 0x5C then
        (case cs of
           [] \<Rightarrow> None
         | e # es \<Rightarrow>
             if e = CHR ''u'' then
               (case es of
                  a # b # c' # d # rest \<Rightarrow>
                    (case unescape_unicode a b c' d of
                       None \<Rightarrow> None
                     | Some ch \<Rightarrow> map_option (\<lambda>(str, r). (ch # str, r)) (parse_string rest))
                | _ \<Rightarrow> None)
             else
               (case unescape_simple e of
                  None \<Rightarrow> None
                | Some ch \<Rightarrow> map_option (\<lambda>(str, r). (ch # str, r)) (parse_string es)))
      else if (of_char c :: nat) < 32 then None
      else map_option (\<lambda>(str, r). (c # str, r)) (parse_string cs))"

definition parse_record :: "string \<Rightarrow> RequestRecord option" where
  "parse_record s =
     (case strip_prefix (''{'' @ JSON_key ''timestamp'') s of None \<Rightarrow> None | Some s1 \<Rightarrow>
      case parse_int s1 of None \<Rightarrow> None | Some (t, s2) \<Rightarrow>
      case strip_prefix ('','' @ JSON_key ''count'') s2 of None \<Rightarrow> None | Some s3 \<Rightarrow>
      case parse_int s3 of None \<Rightarrow> None | Some (n, s4) \<Rightarrow>
      if s4 = ''}'' then Some \<lparr>timestamp = t, count = n, fingerprint = None\<rparr>
      else
        case strip_prefix ('','' @ JSON_key ''fingerprint'' @ [CHR 0x22]) s4 of
          None \<Rightarrow> None
        | Some s5 \<Rightarrow>
            case parse_string s5 of
              None \<Rightarrow> None
            | Some (f, s6) \<Rightarrow>
                if s6 = ''}'' then Some \<lparr>timestamp = t, count = n, fingerprint = Some f\<rparr>
                else None)"

definition JSON_parse :: "string \<Rightarrow> error + RequestRecord" where
  "JSON_parse s = (case parse_record s of None \<Rightarrow> Inl SyntaxError | Some r \<Rightarrow> Inr r)"



section \<open>The browser: storages and cookies\<close>

text \<open>
  The state of the page: whether \<open>window\<close> exists, the two Web storages (a missing key
  reads as \<open>null\<close>), the cookies visible to the page as name-value pairs in the order
  \<open>document.cookie\<close> lists them, and the three pieces of React state the hook publishes.
  Writes to the storages are taken to succeed (no quota error), and a cookie is observed
  within its \<open>max-age\<close>.
\<close>

record ClientState =
  hasWindow :: bool
  localStorage :: "string \<rightharpoonup> string"
  sessionStorage :: "string \<rightharpoonup> string"
  cookieJar :: "(string \<times> string) list"
  isLimited :: bool
  remainingRequests :: int
  resetTime :: "int option"

text \<open>
  \<open>document.cookie = text\<close>: the name-value pair is the text before the first \<open>;\<close>, the
  name what precedes its first \<open>=\<close>, the value what follows, both trimmed; a text without
  \<open>=\<close> or with an empty name is ignored. A cookie of that name is replaced, otherwise the
  cookie is added at the end.
\<close>

definition cookie_assign :: "string \<Rightarrow> (string \<times> string) list \<Rightarrow> (string \<times> string) list" where
  "cookie_assign text jar =
     (let pair = takeWhile (\<lambda>c. c \<noteq> CHR '';'') text;
          name = trim (takeWhile (\<lambda>c. c \<noteq> CHR ''='') pair);
          val = trim (drop 1 (dropWhile (\<lambda>c. c \<noteq> CHR ''='') pair))
      in if CHR ''='' \<notin> set pair \<or> name = [] then jar
         else if name \<in> set (map fst jar) then
           map (\<lambda>(n, v). if n = name then (n, val) else (n, v)) jar
         else jar @ [(name, val)])"

text \<open>Reading \<open>document.cookie\<close>: the pairs as \<open>name=value\<close>, joined by \<open>; \<close>.\<close>

fun cookie_string :: "(string \<times> string) list \<Rightarrow> string" where
  "cookie_string [] = []"
| "cookie_string [(n, v)] = n @ ''='' @ v"
| "cookie_string ((n, v) # rest) = n @ ''='' @ v @ ''; '' @ cookie_string rest"


section \<open>The client gate: \<open>src/hooks/useRateLimit.ts\<close>\<close>

record RateLimitConfig =
  maxRequests :: int
  windowMs :: int
  storageKey :: string

definition setMultiStorage :: "string \<Rightarrow> string \<Rightarrow> ClientState \<Rightarrow> ClientState" where
  "setMultiStorage key val s =
     (if \<not> hasWindow s then s
      else s\<lparr>localStorage := (localStorage s)(key \<mapsto> val),
             sessionStorage := (sessionStorage s)(key \<mapsto> val),
             cookieJar := cookie_assign
                            (key @ ''='' @ val @ ''; path=/; max-age=''
                               @ number_text (24 * 60 * 60))
                            (cookieJar s)\<rparr>)"

text \<open>
  The loop of \<open>getMultiStorage\<close> over \<open>document.cookie\<close> split at \<open>;\<close>: of each piece,
  trimmed and split at \<open>=\<close>, the first two parts are the name and the value.
\<close>

fun cookie_scan :: "string \<Rightarrow> string list \<Rightarrow> string option" where
  "cookie_scan key [] = None"
| "cookie_scan key (cookie # cookies) =
     (case split_on CHR ''='' (trim cookie) of
        name # val # _ \<Rightarrow> if name = key \<and> val \<noteq> [] then Some val else cookie_scan key cookies
      | _ \<Rightarrow> cookie_scan key cookies)"

definition getMultiStorage :: "string \<Rightarrow> ClientState \<Rightarrow> string option \<times> ClientState" where
  "getMultiStorage key s =
     (if \<not> hasWindow s then (None, s)
      else if truthy (localStorage s key) then (localStorage s key, s)
      else if truthy (sessionStorage s key) then
        (sessionStorage s key,
         s\<lparr>localStorage := (localStorage s)(key \<mapsto> str_of (sessionStorage s key))\<rparr>)
      else
        (case cookie_scan key (split_on CHR '';'' (cookie_string (cookieJar s))) of
           Some val \<Rightarrow>
             (Some val,
              s\<lparr>localStorage := (localStorage s)(key \<mapsto> val),
                sessionStorage := (sessionStorage s)(key \<mapsto> val)\<rparr>)
         | None \<Rightarrow> (None, s)))"

text \<open>
  The hook's functions take the configuration, the fingerprint of the session (\<open>fp\<close>, the
  empty string while none is available) and, where they call \<open>Date.now()\<close>, the time.
\<close>

definition detectManipulation :: "RateLimitConfig \<Rightarrow> string \<Rightarrow> ClientState \<Rightarrow> bool \<times> ClientState" where
  "detectManipulation config fp s =
     (if \<not> hasWindow s \<or> fp = [] then (False, s)
      else
        let localData = localStorage s (storageKey config);
            sessionData = sessionStorage s (storageKey config)
        in if (truthy localData \<and> \<not> truthy sessionData)
              \<or> (\<not> truthy localData \<and> truthy sessionData) then
             (let s1 = (if truthy localData then
                          s\<lparr>sessionStorage :=
                              (sessionStorage s)(storageKey config \<mapsto> str_of localData)\<rparr>
                        else s);
                  s2 = (if truthy sessionData then
                          s1\<lparr>localStorage :=
                               (localStorage s1)(storageKey config \<mapsto> str_of sessionData)\<rparr>
                        else s1)
              in (True, s2))
           else if truthy localData then
             (case JSON_parse (str_of localData) of
                Inl e \<Rightarrow> (False, s)
              | Inr record \<Rightarrow>
                  if truthy (fingerprint record) \<and> fingerprint record \<noteq> Some fp then (True, s)
                  else (False, s))
           else (False, s))"

text \<open>
  \<open>checkRateLimit\<close> returns \<open>true\<close> when the request is blocked. It is written here in
  two parts. \<open>checkRateLimit_decide\<close> is the function from the line that computes
  \<open>resetTime\<close> to its end, given the record and the state at that line; the local
  \<open>resetTime\<close> is \<open>resetTime'\<close>, and \<open>record\<close>, which the source reassigns and then
  mutates, is \<open>record\<close>, \<open>record1\<close>, \<open>record2\<close>.
\<close>

definition checkRateLimit_decide ::
  "RateLimitConfig \<Rightarrow> string \<Rightarrow> int \<Rightarrow> RequestRecord \<Rightarrow> ClientState \<Rightarrow> bool \<times> ClientState" where
  "checkRateLimit_decide config fp now record s2 =
     (let resetTime' = timestamp record + windowMs config
      in if now < resetTime' \<and> count record \<ge> maxRequests config then
           (True, s2\<lparr>isLimited := True, remainingRequests := 0, resetTime := Some resetTime'\<rparr>)
         else
           let record1 = (if now \<ge> resetTime'
                          then \<lparr>timestamp = now, count = 0, fingerprint = Some fp\<rparr>
                          else record);
               s3 = (if now \<ge> resetTime'
                     then setMultiStorage (storageKey config) (JSON_stringify record1) s2
                     else s2)
           in if count record1 \<ge> maxRequests config then
                (True, s3\<lparr>isLimited := True, remainingRequests := 0,
                          resetTime := Some resetTime'\<rparr>)
              else
                let record2 = record1\<lparr>count := count record1 + 1, fingerprint := Some fp\<rparr>;
                    s4 = setMultiStorage (storageKey config) (JSON_stringify record2) s3
                in (False,
                    s4\<lparr>isLimited := False,
                       remainingRequests := maxRequests config - count record2,
                       resetTime := (if count record2 \<ge> maxRequests config
                                     then Some resetTime' else None)\<rparr>))"

text \<open>
  \<open>checkRateLimit\<close> itself: the guard, the manipulation check (its result is dropped),
  the read, and \<open>JSON.parse\<close>. The parse is outside any \<open>try\<close>, so its exception leaves
  the function: the result is then \<open>Inl\<close>, with the state as it was at the throw.
\<close>

definition checkRateLimit ::
  "RateLimitConfig \<Rightarrow> string \<Rightarrow> int \<Rightarrow> ClientState \<Rightarrow> (error + bool) \<times> ClientState" where
  "checkRateLimit config fp now s0 =
     (if \<not> hasWindow s0 \<or> fp = [] then (Inr False, s0)
      else
        let s1 = snd (detectManipulation config fp s0);
            stored = fst (getMultiStorage (storageKey config) s1);
            s2 = snd (getMultiStorage (storageKey config) s1)
        in case (if truthy stored then JSON_parse (str_of stored)
                 else Inr \<lparr>timestamp = now, count = 0, fingerprint = Some fp\<rparr>) of
             Inl e \<Rightarrow> (Inl e, s2)
           | Inr record \<Rightarrow>
               (Inr (fst (checkRateLimit_decide config fp now record s2)),
                snd (checkRateLimit_decide config fp now record s2)))"

text \<open>
  \<open>reset\<close> has no \<open>typeof window\<close> guard: without a window, \<open>localStorage\<close> is not defined.
\<close>

definition reset :: "RateLimitConfig \<Rightarrow> ClientState \<Rightarrow> error + ClientState" where
  "reset config s =
     (if \<not> hasWindow s then Inl ReferenceError
      else Inr (s\<lparr>localStorage := (localStorage s)(storageKey config := None),
                  sessionStorage := (sessionStorage s)(storageKey config := None),
                  isLimited := False,
                  remainingRequests := maxRequests config,
                  resetTime := None\<rparr>))"

text \<open>The effect that runs on mount, once a fingerprint is available.\<close>

definition mountEffect :: "RateLimitConfig \<Rightarrow> string \<Rightarrow> int \<Rightarrow> ClientState \<Rightarrow> ClientState" where
  "mountEffect config fp now s =
     (if \<not> hasWindow s \<or> fp = [] then s
      else
        let stored = fst (getMultiStorage (storageKey config) s);
            s1 = snd (getMultiStorage (storageKey config) s)
        in if \<not> truthy stored then s1
           else
             (case JSON_parse (str_of stored) of
                Inl e \<Rightarrow>
                  s1\<lparr>localStorage := (localStorage s1)(storageKey config := None),
                     sessionStorage := (sessionStorage s1)(storageKey config := None)\<rparr>
              | Inr record \<Rightarrow>
                  let resetTimeValue = timestamp record + windowMs config
                  in if now < resetTimeValue \<and> count record \<ge> maxRequests config then
                       s1\<lparr>isLimited := True, remainingRequests := 0,
                          resetTime := Some resetTimeValue\<rparr>
                     else if now \<ge> resetTimeValue then
                       s1\<lparr>localStorage := (localStorage s1)(storageKey config := None),
                          sessionStorage := (sessionStorage s1)(storageKey config := None),
                          isLimited := False,
                          remainingRequests := maxRequests config,
                          resetTime := None\<rparr>
                     else
                       s1\<lparr>isLimited := False,
                          remainingRequests := maxRequests config - count record,
                          resetTime := None\<rparr>))"

text \<open>
  The state of a freshly loaded page that holds nothing: empty storages, no cookie, and
  the initial values of the hook's \<open>useState\<close> calls.
\<close>

definition initial_state :: "RateLimitConfig \<Rightarrow> ClientState" where
  "initial_state config =
     \<lparr>hasWindow = True, localStorage = Map.empty, sessionStorage = Map.empty, cookieJar = [],
      isLimited = False, remainingRequests = maxRequests config, resetTime = None\<rparr>"

text \<open>A run of the gate: one \<open>checkRateLimit\<close> call at each of the given times, in order.\<close>

definition client_run :: "RateLimitConfig \<Rightarrow> string \<Rightarrow> int list \<Rightarrow> ClientState \<Rightarrow> ClientState" where
  "client_run config fp nows s = foldl (\<lambda>s' now. snd (checkRateLimit config fp now s')) s nows"

text \<open>
  What a run shows to its caller: for each call its result, and the \<open>remainingRequests\<close>
  and \<open>resetTime\<close> published after it.
\<close>

fun client_trace ::
  "RateLimitConfig \<Rightarrow> string \<Rightarrow> int list \<Rightarrow> ClientState \<Rightarrow> ((error + bool) \<times> int \<times> int option) list" where
  "client_trace config fp [] s = []"
| "client_trace config fp (now # nows) s =
     (fst (checkRateLimit config fp now s),
      remainingRequests (snd (checkRateLimit config fp now s)),
      resetTime (snd (checkRateLimit config fp now s)))
     # client_trace config fp nows (snd (checkRateLimit config fp now s))"

text \<open>The record a read observes: what \<open>getMultiStorage\<close> returns, parsed.\<close>

definition storedRecord :: "string \<Rightarrow> ClientState \<Rightarrow> RequestRecord option" where
  "storedRecord key s =
     (case fst (getMultiStorage key s) of
        None \<Rightarrow> None
      | Some v \<Rightarrow> (case JSON_parse v of Inl e \<Rightarrow> None | Inr r \<Rightarrow> Some r))"

text \<open>No backend holds a value a read would return.\<close>

definition no_record :: "string \<Rightarrow> ClientState \<Rightarrow> bool" where
  "no_record key s =
     (\<not> truthy (localStorage s key) \<and> \<not> truthy (sessionStorage s key)
      \<and> cookie_scan key (split_on CHR '';'' (cookie_string (cookieJar s))) = None)"

text \<open>Both Web storages hold the text of the record \<open>r\<close>.\<close>

definition holds_record :: "string \<Rightarrow> RequestRecord \<Rightarrow> ClientState \<Rightarrow> bool" where
  "holds_record key r s =
     (localStorage s key = Some (JSON_stringify r) \<and> sessionStorage s key = Some (JSON_stringify r))"


text \<open>
  A configuration, a record and states used as examples: the product's limits, the state
  right after that record was written to a page that held nothing, and a page whose only
  trace of the gate is a cookie that is not JSON.
\<close>

definition example_config :: RateLimitConfig where
  "example_config = \<lparr>maxRequests = 2, windowMs = 86400000, storageKey = ''rl''\<rparr>"

definition example_record :: RequestRecord where
  "example_record = \<lparr>timestamp = 0, count = 2, fingerprint = Some ''F1''\<rparr>"

definition written_state :: ClientState where
  "written_state =
     setMultiStorage ''rl'' (JSON_stringify example_record) (initial_state example_config)"

definition corrupt_cookie_state :: ClientState where
  "corrupt_cookie_state = (initial_state example_config)\<lparr>cookieJar := [(''rl'', ''{corrupt'')]\<rparr>"

text \<open>
  The state \<open>reset\<close> leaves behind when called right after that write, and a page on which
  only the cookie holds the record.
\<close>

definition after_reset_state :: ClientState where
  "after_reset_state =
     written_state
       \<lparr>localStorage := (localStorage written_state)(''rl'' := None),
        sessionStorage := (sessionStorage written_state)(''rl'' := None),
        isLimited := False, remainingRequests := 2, resetTime := None\<rparr>"

definition cookie_only_state :: ClientState where
  "cookie_only_state =
     (initial_state example_config)\<lparr>cookieJar := [(''rl'', JSON_stringify example_record)]\<rparr>"

text \<open>
  The invariant of the client gate: there is a window, and either no record is stored or
  both Web storages hold the text of one record within the maximum.
\<close>

definition client_inv :: "RateLimitConfig \<Rightarrow> ClientState \<Rightarrow> bool" where
  "client_inv config s =
     (hasWindow s \<and>
      (no_record (storageKey config) s
       \<or> (\<exists>r. holds_record (storageKey config) r s \<and> count r \<le> maxRequests config)))"


section \<open>The server gate: \<open>src/app/api/restaurants/route.ts\<close>\<close>

text \<open>
  \<open>requestCounts\<close> is a \<open>Map\<close> from client identifier to \<open>{count, timestamp}\<close>; the
  module-level map is passed in and returned. \<open>Date.now()\<close> is the argument \<open>now\<close>.
\<close>

record CountRecord =
  count_srv :: int
  timestamp_srv :: int

definition RATE_LIMIT_maxRequests :: int where
  "RATE_LIMIT_maxRequests = 2"

definition RATE_LIMIT_windowMs :: int where
  "RATE_LIMIT_windowMs = 24 * 60 * 60 * 1000"

text \<open>A request, as far as the gate reads it: \<open>request.headers.get(name)\<close>.\<close>

record NextRequest =
  headers :: "string \<rightharpoonup> string"

definition getClientIdentifier :: "NextRequest \<Rightarrow> string" where
  "getClientIdentifier request =
     (let forwarded = headers request ''x-forwarded-for'';
          realIP = headers request ''x-real-ip'';
          clientIP = headers request ''x-client-ip'';
          ip = (if truthy forwarded then
                  trim (case split_on CHR '','' (str_of forwarded) of [] \<Rightarrow> [] | p # _ \<Rightarrow> p)
                else if truthy realIP then str_of realIP
                else if truthy clientIP then str_of clientIP
                else ''127.0.0.1'');
          userAgent = (if truthy (headers request ''user-agent'')
                       then str_of (headers request ''user-agent'') else ''unknown'');
          userAgentHash = take 16 (base64 (utf8 (take 100 userAgent)))
      in ip @ ''_'' @ userAgentHash)"

record RateLimitResult =
  limited :: bool
  remainingRequests_srv :: int
  resetTime_srv :: "int option"

definition isRateLimited ::
  "int \<Rightarrow> string \<Rightarrow> (string \<rightharpoonup> CountRecord) \<Rightarrow> RateLimitResult \<times> (string \<rightharpoonup> CountRecord)" where
  "isRateLimited now clientId requestCounts =
     (let fresh = (\<lparr>limited = False, remainingRequests_srv = RATE_LIMIT_maxRequests - 1,
                     resetTime_srv = None\<rparr>,
                   requestCounts(clientId \<mapsto> \<lparr>count_srv = 1, timestamp_srv = now\<rparr>))
      in case requestCounts clientId of
           None \<Rightarrow> fresh
         | Some record \<Rightarrow>
             if now - timestamp_srv record > RATE_LIMIT_windowMs then fresh
             else if count_srv record \<ge> RATE_LIMIT_maxRequests then
               (\<lparr>limited = True, remainingRequests_srv = 0,
                 resetTime_srv = Some (timestamp_srv record + RATE_LIMIT_windowMs)\<rparr>,
                requestCounts)
             else
               (let record' = record\<lparr>count_srv := count_srv record + 1\<rparr>
                in (\<lparr>limited = False,
                     remainingRequests_srv = RATE_LIMIT_maxRequests - count_srv record',
                     resetTime_srv = None\<rparr>,
                    requestCounts(clientId \<mapsto> record'))))"

text \<open>The body of the \<open>setInterval\<close> callback: the periodic eviction sweep.\<close>

definition evictionSweep :: "int \<Rightarrow> (string \<rightharpoonup> CountRecord) \<Rightarrow> (string \<rightharpoonup> CountRecord)" where
  "evictionSweep now requestCounts =
     (\<lambda>clientId. case requestCounts clientId of
                   None \<Rightarrow> None
                 | Some record \<Rightarrow>
                     if now - timestamp_srv record > RATE_LIMIT_windowMs * 2 then None
                     else Some record)"

text \<open>
  What happens to the map over the life of the process: requests (identifier and time of
  arrival) and sweeps (time of the tick), in any order.
\<close>

datatype server_event = Request string int | Sweep int

fun server_step :: "(string \<rightharpoonup> CountRecord) \<Rightarrow> server_event \<Rightarrow> (string \<rightharpoonup> CountRecord)" where
  "server_step m (Request clientId now) = snd (isRateLimited now clientId m)"
| "server_step m (Sweep now) = evictionSweep now m"

definition server_run :: "server_event list \<Rightarrow> (string \<rightharpoonup> CountRecord)" where
  "server_run evs = foldl server_step Map.empty evs"

definition server_inv :: "(string \<rightharpoonup> CountRecord) \<Rightarrow> bool" where
  "server_inv m =
     (\<forall>clientId record. m clientId = Some record \<longrightarrow>
        1 \<le> count_srv record \<and> count_srv record \<le> RATE_LIMIT_maxRequests)"



section \<open>\<open>JSON.parse\<close> inverts \<open>JSON.stringify\<close>\<close>

declare decimal_digits.simps [simp del]

lemma strip_prefix_append: "strip_prefix p (p @ s) = Some s"
  by (induction p) simp_all

lemma of_char_char_of_nat: "n < 256 \<Longrightarrow> of_char (char_of (n::nat)) = n"
  by (simp add: take_bit_nat_eq_self)

lemma is_digit_char_of: "k < 10 \<Longrightarrow> is_digit (digit_char k)"
  by (simp add: is_digit_def digit_char_def of_char_char_of_nat del: of_char_of)

lemma decimal_digits_digits: "c \<in> set (decimal_digits n) \<Longrightarrow> is_digit c"
proof (induction n rule: decimal_digits.induct)
  case (1 n)
  show ?case
  proof (cases "n < 10")
    case True
    with "1.prems" show ?thesis
      by (simp add: decimal_digits.simps [of n] is_digit_char_of)
  next
    case False
    with "1.prems" "1.IH" show ?thesis
      by (auto simp: decimal_digits.simps [of n] is_digit_char_of)
  qed
qed

lemma decimal_digits_nonempty: "decimal_digits n \<noteq> []"
  by (subst decimal_digits.simps) simp

lemma nat_of_digits_snoc:
  "nat_of_digits (ds @ [c]) = 10 * nat_of_digits ds + (of_char c - 48)"
  by (simp add: nat_of_digits_def)

lemma nat_of_digits_decimal_digits: "nat_of_digits (decimal_digits n) = n"
proof (induction n rule: decimal_digits.induct)
  case (1 n)
  show ?case
  proof (cases "n < 10")
    case True
    then show ?thesis
      by (simp add: decimal_digits.simps [of n] nat_of_digits_def digit_char_def)
  next
    case False
    with "1.IH" show ?thesis
      by (simp add: decimal_digits.simps [of n] nat_of_digits_snoc digit_char_def)
  qed
qed

lemma decimal_digits_leading:
  "1 < length (decimal_digits n) \<Longrightarrow> take 1 (decimal_digits n) \<noteq> ''0''"
proof (induction n rule: decimal_digits.induct)
  case (1 n)
  show ?case
  proof (cases "n < 10")
    case True
    with "1.prems" show ?thesis
      by (simp add: decimal_digits.simps [of n])
  next
    case False
    note big = this
    show ?thesis
    proof (cases "n div 10 < 10")
      case True
      with big have "decimal_digits n = [digit_char (n div 10), digit_char (n mod 10)]"
        by (simp add: decimal_digits.simps [of n] decimal_digits.simps [of "n div 10"])
      moreover from big have "0 < n div 10" by simp
      ultimately show ?thesis
        using True by (simp add: digit_char_def char_of_eq_iff take_bit_nat_eq_self)
    next
      case False
      then have "1 < length (decimal_digits (n div 10))"
        by (simp add: decimal_digits.simps [of "n div 10"] Suc_lessI decimal_digits_nonempty)
      with "1.IH" big have "take 1 (decimal_digits (n div 10)) \<noteq> ''0''"
        by simp
      moreover obtain d ds where "decimal_digits (n div 10) = d # ds"
        using decimal_digits_nonempty [of "n div 10"] by (cases "decimal_digits (n div 10)") auto
      ultimately show ?thesis
        using big by (simp add: decimal_digits.simps [of n])
    qed
  qed
qed

lemma takeWhile_decimal_digits:
  "rest = [] \<or> \<not> is_digit (hd rest) \<Longrightarrow>
   takeWhile is_digit (decimal_digits n @ rest) = decimal_digits n
   \<and> dropWhile is_digit (decimal_digits n @ rest) = rest"
  by (cases rest) (simp_all add: decimal_digits_digits takeWhile_append2 dropWhile_append2)

lemma parse_nat_decimal_digits:
  "rest = [] \<or> \<not> is_digit (hd rest) \<Longrightarrow> parse_nat (decimal_digits n @ rest) = Some (n, rest)"
  using decimal_digits_leading [of n]
  by (simp add: parse_nat_def Let_def takeWhile_decimal_digits decimal_digits_nonempty
                nat_of_digits_decimal_digits)

lemma decimal_digits_not_minus: "decimal_digits n @ rest = c # cs \<Longrightarrow> c \<noteq> CHR ''-''"
proof -
  assume a: "decimal_digits n @ rest = c # cs"
  obtain d ds where "decimal_digits n = d # ds"
    using decimal_digits_nonempty [of n] by (cases "decimal_digits n") auto
  with a have "c \<in> set (decimal_digits n)" by simp
  then have "is_digit c" by (rule decimal_digits_digits)
  then show ?thesis by (auto simp: is_digit_def)
qed

lemma parse_int_number_text:
  assumes "rest = [] \<or> \<not> is_digit (hd rest)"
  shows "parse_int (number_text i @ rest) = Some (i, rest)"
proof (cases "i < 0")
  case True
  with assms show ?thesis
    by (simp add: parse_int_def number_text_def parse_nat_decimal_digits)
next
  case False
  obtain c cs where e: "decimal_digits (nat i) @ rest = c # cs"
    using decimal_digits_nonempty [of "nat i"] by (cases "decimal_digits (nat i) @ rest") auto
  from decimal_digits_not_minus [OF e] have "c \<noteq> CHR ''-''" .
  with False assms e show ?thesis
    using parse_nat_decimal_digits [OF assms, of "nat i"]
    by (simp add: parse_int_def number_text_def)
qed

lemma hex_value_hex_digit: "k < 16 \<Longrightarrow> hex_value (hex_digit k) = Some k"
  by (simp add: hex_value_def hex_digit_def)

lemma hex_value_zero: "hex_value CHR ''0'' = Some 0"
  by (simp add: hex_value_def)

lemma unescape_unicode_control:
  assumes "(of_char c :: nat) < 32"
  shows "unescape_unicode CHR ''0'' CHR ''0'' (hex_digit (of_char c div 16))
           (hex_digit (of_char c mod 16)) = Some c"
proof -
  have "(of_char c :: nat) div 16 < 16" using assms by simp
  then show ?thesis
    by (simp add: unescape_unicode_def hex_value_zero hex_value_hex_digit)
qed

lemma parse_string_escape_char:
  "parse_string (escape_char c @ s) = map_option (\<lambda>(str, r). (c # str, r)) (parse_string s)"
  by (simp add: escape_char_def unescape_simple_def unescape_unicode_control)

lemma parse_string_escaped:
  "parse_string (concat (map escape_char f) @ CHR 0x22 # rest) = Some (f, rest)"
  by (induction f) (simp_all add: parse_string_escape_char)

lemma is_digit_simps: "\<not> is_digit CHR '',''" "\<not> is_digit CHR ''}''"
  by (simp_all add: is_digit_def)

lemma JSON_roundtrip: "JSON_parse (JSON_stringify r) = Inr r"
proof (cases r)
  case (fields t n fp)
  show ?thesis
  proof (cases fp)
    case None
    with fields show ?thesis
      by (simp add: JSON_parse_def JSON_stringify_def JSON_key_def parse_record_def
                    parse_int_number_text is_digit_simps)
  next
    case (Some f)
    with fields show ?thesis
      by (simp add: JSON_parse_def JSON_stringify_def JSON_key_def parse_record_def
                    JSON_quote_def parse_int_number_text is_digit_simps parse_string_escaped)
  qed
qed

lemma JSON_stringify_nonempty: "JSON_stringify r \<noteq> []"
  by (simp add: JSON_stringify_def)


section \<open>Properties of the client gate\<close>

lemma truthy_stringify: "truthy (Some (JSON_stringify r))"
  by (simp add: truthy_def JSON_stringify_nonempty)

lemma setMultiStorage_holds:
  "hasWindow s \<Longrightarrow> holds_record key r (setMultiStorage key (JSON_stringify r) s)"
  by (simp add: holds_record_def setMultiStorage_def)

lemma setMultiStorage_hasWindow: "hasWindow (setMultiStorage key v s) = hasWindow s"
  by (simp add: setMultiStorage_def)

lemma getMultiStorage_local:
  "hasWindow s \<Longrightarrow> localStorage s key = Some (JSON_stringify r) \<Longrightarrow>
   getMultiStorage key s = (Some (JSON_stringify r), s)"
  by (simp add: getMultiStorage_def truthy_stringify)

lemma getMultiStorage_no_record: "no_record key s \<Longrightarrow> getMultiStorage key s = (None, s)"
  by (simp add: getMultiStorage_def no_record_def)

lemma detectManipulation_holds:
  "holds_record (storageKey config) r s \<Longrightarrow> snd (detectManipulation config fp s) = s"
  by (simp add: detectManipulation_def holds_record_def truthy_stringify str_of_def
                JSON_roundtrip Let_def)

lemma detectManipulation_no_record:
  "no_record (storageKey config) s \<Longrightarrow> detectManipulation config fp s = (False, s)"
  by (simp add: detectManipulation_def no_record_def Let_def)

lemma checkRateLimit_holds:
  assumes "hasWindow s" and "fp \<noteq> []" and "holds_record (storageKey config) r s"
  shows "checkRateLimit config fp now s
         = (Inr (fst (checkRateLimit_decide config fp now r s)),
            snd (checkRateLimit_decide config fp now r s))"
proof -
  from assms(3) have l: "localStorage s (storageKey config) = Some (JSON_stringify r)"
    by (simp add: holds_record_def)
  show ?thesis
    using assms(1,2)
    by (simp add: checkRateLimit_def detectManipulation_holds [OF assms(3)]
                  getMultiStorage_local [OF assms(1) l] truthy_stringify str_of_def
                  JSON_roundtrip)
qed

lemma checkRateLimit_no_record:
  assumes "hasWindow s" and "fp \<noteq> []" and "no_record (storageKey config) s"
  shows "checkRateLimit config fp now s
         = (Inr (fst (checkRateLimit_decide config fp now
                        \<lparr>timestamp = now, count = 0, fingerprint = Some fp\<rparr> s)),
            snd (checkRateLimit_decide config fp now
                   \<lparr>timestamp = now, count = 0, fingerprint = Some fp\<rparr> s))"
  using assms(1,2)
  by (simp add: checkRateLimit_def detectManipulation_no_record [OF assms(3)]
                getMultiStorage_no_record [OF assms(3)] truthy_def)

text \<open>What the decision does, case by case.\<close>

lemma decide_blocked:
  assumes "now < timestamp r + windowMs config" and "maxRequests config \<le> count r"
  shows "checkRateLimit_decide config fp now r s
         = (True, s\<lparr>isLimited := True, remainingRequests := 0,
                     resetTime := Some (timestamp r + windowMs config)\<rparr>)"
  using assms by (simp add: checkRateLimit_decide_def)

lemma decide_open:
  assumes "now < timestamp r + windowMs config" and "count r < maxRequests config"
  shows "checkRateLimit_decide config fp now r s
         = (False,
            (setMultiStorage (storageKey config)
               (JSON_stringify (r\<lparr>count := count r + 1, fingerprint := Some fp\<rparr>)) s)
            \<lparr>isLimited := False,
             remainingRequests := maxRequests config - (count r + 1),
             resetTime := (if maxRequests config \<le> count r + 1
                           then Some (timestamp r + windowMs config) else None)\<rparr>)"
  using assms by (simp add: checkRateLimit_decide_def Let_def)

lemma decide_elapsed:
  assumes "timestamp r + windowMs config \<le> now" and "0 < maxRequests config"
  shows "checkRateLimit_decide config fp now r s
         = (False,
            (setMultiStorage (storageKey config)
               (JSON_stringify \<lparr>timestamp = now, count = 1, fingerprint = Some fp\<rparr>)
               (setMultiStorage (storageKey config)
                  (JSON_stringify \<lparr>timestamp = now, count = 0, fingerprint = Some fp\<rparr>) s))
            \<lparr>isLimited := False,
             remainingRequests := maxRequests config - 1,
             resetTime := (if maxRequests config \<le> 1
                           then Some (timestamp r + windowMs config) else None)\<rparr>)"
  using assms by (simp add: checkRateLimit_decide_def Let_def)

lemma storedRecord_holds:
  "hasWindow s \<Longrightarrow> holds_record key r s \<Longrightarrow> storedRecord key s = Some r"
  by (simp add: storedRecord_def holds_record_def getMultiStorage_local JSON_roundtrip)

lemma storedRecord_no_record: "no_record key s \<Longrightarrow> storedRecord key s = None"
  by (simp add: storedRecord_def getMultiStorage_no_record)

lemma storedRecord_ui:
  "storedRecord key (s\<lparr>isLimited := a, remainingRequests := b, resetTime := c\<rparr>)
   = storedRecord key s"
  by (simp add: storedRecord_def getMultiStorage_def split: option.splits)

lemma holds_after_write:
  "hasWindow s \<Longrightarrow>
   holds_record key r
     ((setMultiStorage key (JSON_stringify r) s)
        \<lparr>isLimited := a, remainingRequests := b, resetTime := c\<rparr>)
   \<and> hasWindow ((setMultiStorage key (JSON_stringify r) s)
        \<lparr>isLimited := a, remainingRequests := b, resetTime := c\<rparr>)"
  by (simp add: holds_record_def setMultiStorage_def)

text \<open>One decision on a record within the bound.\<close>

lemma decide_step:
  assumes mx: "0 < maxRequests config" and w: "hasWindow s"
    and bound: "count r \<le> maxRequests config"
  shows "(fst (checkRateLimit_decide config fp now r s)
          \<and> localStorage (snd (checkRateLimit_decide config fp now r s)) = localStorage s
          \<and> sessionStorage (snd (checkRateLimit_decide config fp now r s)) = sessionStorage s
          \<and> cookieJar (snd (checkRateLimit_decide config fp now r s)) = cookieJar s
          \<and> hasWindow (snd (checkRateLimit_decide config fp now r s))
          \<and> storedRecord (storageKey config) (snd (checkRateLimit_decide config fp now r s))
              = storedRecord (storageKey config) s)
       \<or> (\<not> fst (checkRateLimit_decide config fp now r s)
          \<and> hasWindow (snd (checkRateLimit_decide config fp now r s))
          \<and> (\<exists>r'. holds_record (storageKey config) r'
                      (snd (checkRateLimit_decide config fp now r s))
                 \<and> count r' \<le> maxRequests config))"
proof -
  consider (blocked) "now < timestamp r + windowMs config" "maxRequests config \<le> count r"
    | (opened) "now < timestamp r + windowMs config" "count r < maxRequests config"
    | (elapsed) "timestamp r + windowMs config \<le> now"
    by linarith
  then show ?thesis
  proof cases
    case blocked
    then show ?thesis
      using w by (simp add: decide_blocked storedRecord_ui)
  next
    case opened
    have "holds_record (storageKey config) (r\<lparr>count := count r + 1, fingerprint := Some fp\<rparr>)
            (snd (checkRateLimit_decide config fp now r s))
          \<and> hasWindow (snd (checkRateLimit_decide config fp now r s))"
      using holds_after_write [OF w] by (simp add: decide_open [OF opened])
    moreover have "count (r\<lparr>count := count r + 1, fingerprint := Some fp\<rparr>) \<le> maxRequests config"
      using opened by simp
    moreover have "\<not> fst (checkRateLimit_decide config fp now r s)"
      by (simp add: decide_open [OF opened])
    ultimately show ?thesis by blast
  next
    case elapsed
    have w': "hasWindow (setMultiStorage (storageKey config)
                (JSON_stringify \<lparr>timestamp = now, count = 0, fingerprint = Some fp\<rparr>) s)"
      using w by (simp add: setMultiStorage_hasWindow)
    have "holds_record (storageKey config) \<lparr>timestamp = now, count = 1, fingerprint = Some fp\<rparr>
            (snd (checkRateLimit_decide config fp now r s))
          \<and> hasWindow (snd (checkRateLimit_decide config fp now r s))"
      using holds_after_write [OF w'] by (simp add: decide_elapsed [OF elapsed mx])
    moreover have "count \<lparr>timestamp = now, count = 1, fingerprint = Some fp\<rparr> \<le> maxRequests config"
      using mx by simp
    moreover have "\<not> fst (checkRateLimit_decide config fp now r s)"
      by (simp add: decide_elapsed [OF elapsed mx])
    ultimately show ?thesis by blast
  qed
qed

lemma client_inv_frame:
  assumes "client_inv config s" and "hasWindow s'"
    and "localStorage s' = localStorage s" and "sessionStorage s' = sessionStorage s"
    and "cookieJar s' = cookieJar s"
  shows "client_inv config s'"
  using assms by (simp add: client_inv_def no_record_def holds_record_def)

text \<open>One call of the gate in a state of the invariant.\<close>

lemma checkRateLimit_step:
  assumes mx: "0 < maxRequests config" and fp: "fp \<noteq> []" and inv: "client_inv config s"
  shows "client_inv config (snd (checkRateLimit config fp now s))
       \<and> (\<exists>b. fst (checkRateLimit config fp now s) = Inr b)
       \<and> (fst (checkRateLimit config fp now s) = Inr True \<longrightarrow>
            localStorage (snd (checkRateLimit config fp now s)) = localStorage s
          \<and> sessionStorage (snd (checkRateLimit config fp now s)) = sessionStorage s
          \<and> cookieJar (snd (checkRateLimit config fp now s)) = cookieJar s
          \<and> storedRecord (storageKey config) (snd (checkRateLimit config fp now s))
              = storedRecord (storageKey config) s)"
proof -
  from inv have w: "hasWindow s" by (simp add: client_inv_def)
  obtain r where bound: "count r \<le> maxRequests config"
    and eq: "checkRateLimit config fp now s
             = (Inr (fst (checkRateLimit_decide config fp now r s)),
                snd (checkRateLimit_decide config fp now r s))"
  proof -
    from inv consider (none) "no_record (storageKey config) s"
      | (some) r where "holds_record (storageKey config) r s" "count r \<le> maxRequests config"
      by (auto simp: client_inv_def)
    then show ?thesis
    proof cases
      case none
      have "count \<lparr>timestamp = now, count = 0, fingerprint = Some fp\<rparr> \<le> maxRequests config"
        using mx by simp
      with checkRateLimit_no_record [OF w fp none, of now] that show ?thesis
        by blast
    next
      case some
      with checkRateLimit_holds [OF w fp some(1), of now] that show ?thesis
        by blast
    qed
  qed
  from decide_step [OF mx w bound, of fp now] show ?thesis
  proof (elim disjE conjE exE)
    assume "fst (checkRateLimit_decide config fp now r s)"
      and "localStorage (snd (checkRateLimit_decide config fp now r s)) = localStorage s"
      and "sessionStorage (snd (checkRateLimit_decide config fp now r s)) = sessionStorage s"
      and "cookieJar (snd (checkRateLimit_decide config fp now r s)) = cookieJar s"
      and "hasWindow (snd (checkRateLimit_decide config fp now r s))"
      and "storedRecord (storageKey config) (snd (checkRateLimit_decide config fp now r s))
             = storedRecord (storageKey config) s"
    then show ?thesis
      using client_inv_frame [OF inv, of "snd (checkRateLimit_decide config fp now r s)"]
      by (auto simp: eq)
  next
    fix r'
    assume "\<not> fst (checkRateLimit_decide config fp now r s)"
      and "hasWindow (snd (checkRateLimit_decide config fp now r s))"
      and "holds_record (storageKey config) r' (snd (checkRateLimit_decide config fp now r s))"
      and "count r' \<le> maxRequests config"
    then show ?thesis
      by (auto simp: eq client_inv_def)
  qed
qed

lemma client_inv_run:
  "0 < maxRequests config \<Longrightarrow> fp \<noteq> [] \<Longrightarrow> client_inv config s \<Longrightarrow>
   client_inv config (client_run config fp nows s)"
proof (induction nows arbitrary: s)
  case Nil
  then show ?case by (simp add: client_run_def)
next
  case (Cons now nows)
  from checkRateLimit_step [OF Cons.prems(1,2,3), of now]
  have "client_inv config (snd (checkRateLimit config fp now s))" by blast
  from Cons.IH [OF Cons.prems(1,2) this] show ?case
    by (simp add: client_run_def)
qed

lemma client_inv_bound:
  assumes "client_inv config s" and "storedRecord (storageKey config) s = Some r"
  shows "count r \<le> maxRequests config"
  using assms
  by (auto simp: client_inv_def storedRecord_holds storedRecord_no_record)


text \<open>A read or a call that finds the text of a record in \<open>localStorage\<close>.\<close>

lemma detectManipulation_local:
  assumes "hasWindow s" and "localStorage s (storageKey config) = Some (JSON_stringify r)"
  shows "hasWindow (snd (detectManipulation config fp s))
       \<and> localStorage (snd (detectManipulation config fp s)) = localStorage s
       \<and> cookieJar (snd (detectManipulation config fp s)) = cookieJar s
       \<and> isLimited (snd (detectManipulation config fp s)) = isLimited s
       \<and> remainingRequests (snd (detectManipulation config fp s)) = remainingRequests s
       \<and> resetTime (snd (detectManipulation config fp s)) = resetTime s
       \<and> (sessionStorage (snd (detectManipulation config fp s)) = sessionStorage s
          \<or> sessionStorage (snd (detectManipulation config fp s))
              = (sessionStorage s)(storageKey config \<mapsto> JSON_stringify r))"
  using assms
  by (simp add: detectManipulation_def Let_def truthy_stringify JSON_roundtrip str_of_def)

lemma checkRateLimit_local:
  assumes w: "hasWindow s" and fp: "fp \<noteq> []"
    and l: "localStorage s (storageKey config) = Some (JSON_stringify r)"
  shows "checkRateLimit config fp now s
         = (Inr (fst (checkRateLimit_decide config fp now r (snd (detectManipulation config fp s)))),
            snd (checkRateLimit_decide config fp now r (snd (detectManipulation config fp s))))"
proof -
  from detectManipulation_local [OF w l, of fp]
  have w1: "hasWindow (snd (detectManipulation config fp s))"
    and l1: "localStorage (snd (detectManipulation config fp s)) (storageKey config)
             = Some (JSON_stringify r)"
    using l by simp_all
  show ?thesis
    using w fp
    by (simp add: checkRateLimit_def Let_def getMultiStorage_local [OF w1 l1] truthy_stringify
                  str_of_def JSON_roundtrip)
qed

lemma no_record_initial: "no_record key (initial_state config)"
  by (simp add: no_record_def initial_state_def truthy_def trim_def)

lemma hasWindow_initial: "hasWindow (initial_state config)"
  by (simp add: initial_state_def)

lemma client_inv_start: "hasWindow s \<Longrightarrow> no_record (storageKey config) s \<Longrightarrow> client_inv config s"
  by (simp add: client_inv_def)

text \<open>The state after the two admitted calls of the scenario.\<close>

lemma two_admitted_calls:
  assumes fp: "fp \<noteq> []" and w: "hasWindow s0" and none: "no_record key s0"
  shows "holds_record key \<lparr>timestamp = 0, count = 2, fingerprint = Some fp\<rparr>
           (client_run \<lparr>maxRequests = 2, windowMs = 86400000, storageKey = key\<rparr> fp [0, 1000] s0)
       \<and> hasWindow
           (client_run \<lparr>maxRequests = 2, windowMs = 86400000, storageKey = key\<rparr> fp [0, 1000] s0)"
proof -
  let ?c = "\<lparr>maxRequests = 2, windowMs = 86400000, storageKey = key\<rparr>"
  let ?r1 = "\<lparr>timestamp = 0, count = 1, fingerprint = Some fp\<rparr>"
  let ?r2 = "\<lparr>timestamp = 0, count = 2, fingerprint = Some fp\<rparr>"
  let ?s1 = "snd (checkRateLimit ?c fp 0 s0)"
  let ?s2 = "snd (checkRateLimit ?c fp 1000 ?s1)"
  have none': "no_record (storageKey ?c) s0" using none by simp
  have c1: "?s1 = (setMultiStorage key (JSON_stringify ?r1) s0)
                    \<lparr>isLimited := False, remainingRequests := 1, resetTime := None\<rparr>"
    by (simp add: checkRateLimit_no_record [OF w fp none'] decide_open)
  have h1: "holds_record (storageKey ?c) ?r1 ?s1" and w1: "hasWindow ?s1"
    using holds_after_write [OF w, of key ?r1] by (simp_all add: c1)
  have c2: "?s2 = (setMultiStorage key (JSON_stringify ?r2) ?s1)
                    \<lparr>isLimited := False, remainingRequests := 0, resetTime := Some 86400000\<rparr>"
    by (simp add: checkRateLimit_holds [OF w1 fp h1] decide_open)
  have "holds_record key ?r2 ?s2 \<and> hasWindow ?s2"
    using holds_after_write [OF w1, of key ?r2] by (simp add: c2)
  then show ?thesis
    by (simp add: client_run_def)
qed

lemma digit_char_simps:
  "digit_char 0 = CHR ''0''" "digit_char 1 = CHR ''1''" "digit_char 2 = CHR ''2''"
  "digit_char 3 = CHR ''3''" "digit_char 4 = CHR ''4''" "digit_char 5 = CHR ''5''"
  "digit_char 6 = CHR ''6''" "digit_char 7 = CHR ''7''" "digit_char 8 = CHR ''8''"
  "digit_char 9 = CHR ''9''"
  by (simp_all add: digit_char_def char_of_eq_iff take_bit_nat_eq_self)

lemma example_text:
  "JSON_stringify example_record
   = [CHR ''{'', CHR 0x22] @ ''timestamp'' @ [CHR 0x22] @ '':0,'' @ [CHR 0x22] @ ''count''
     @ [CHR 0x22] @ '':2,'' @ [CHR 0x22] @ ''fingerprint'' @ [CHR 0x22, CHR '':'', CHR 0x22]
     @ ''F1'' @ [CHR 0x22, CHR ''}'']"
  by (simp add: example_record_def JSON_stringify_def JSON_key_def JSON_quote_def
                escape_char_def number_text_def decimal_digits.simps digit_char_simps)

lemma written_state_cookie: "cookieJar written_state = [(''rl'', JSON_stringify example_record)]"
  by (simp add: written_state_def setMultiStorage_def initial_state_def cookie_assign_def
                example_text trim_def is_ws_def number_text_def decimal_digits.simps)

lemma scan_written_cookie:
  "cookie_scan ''rl'' (split_on CHR '';'' (cookie_string [(''rl'', JSON_stringify example_record)]))
   = Some (JSON_stringify example_record)"
  by (simp add: example_text trim_def is_ws_def)

lemma scan_corrupt_cookie:
  "cookie_scan ''rl'' (split_on CHR '';'' (cookie_string [(''rl'', ''{corrupt'')]))
   = Some ''{corrupt''"
  by (simp add: trim_def is_ws_def)

lemma parse_corrupt: "JSON_parse ''{corrupt'' = Inl SyntaxError"
  by (simp add: JSON_parse_def parse_record_def JSON_key_def)

text \<open>Reads after a write that one backend has lost.\<close>

lemma read_local_deleted:
  assumes "hasWindow s" and "v \<noteq> []"
  shows "getMultiStorage key
           ((setMultiStorage key v s)
              \<lparr>localStorage := (localStorage (setMultiStorage key v s))(key := None)\<rparr>)
         = (Some v, setMultiStorage key v s)"
  using assms by (simp add: getMultiStorage_def setMultiStorage_def truthy_def str_of_def)

lemma read_session_deleted:
  assumes "hasWindow s" and "v \<noteq> []"
  shows "getMultiStorage key
           ((setMultiStorage key v s)
              \<lparr>sessionStorage := (sessionStorage (setMultiStorage key v s))(key := None)\<rparr>)
         = (Some v,
            (setMultiStorage key v s)
              \<lparr>sessionStorage := (sessionStorage (setMultiStorage key v s))(key := None)\<rparr>)"
  using assms by (simp add: getMultiStorage_def setMultiStorage_def truthy_def)

lemma read_cookie_changed:
  assumes "hasWindow s" and "v \<noteq> []"
  shows "getMultiStorage key ((setMultiStorage key v s)\<lparr>cookieJar := jar\<rparr>)
         = (Some v, (setMultiStorage key v s)\<lparr>cookieJar := jar\<rparr>)"
  using assms by (simp add: getMultiStorage_def setMultiStorage_def truthy_def)

lemma reset_result:
  "hasWindow s \<Longrightarrow>
   reset config s
   = Inr (s\<lparr>localStorage := (localStorage s)(storageKey config := None),
             sessionStorage := (sessionStorage s)(storageKey config := None),
             isLimited := False, remainingRequests := maxRequests config, resetTime := None\<rparr>)"
  by (simp add: reset_def)

lemma checkRateLimit_throws:
  assumes w: "hasWindow s" and fp: "fp \<noteq> []"
    and l: "localStorage s (storageKey config) = Some v" and v: "v \<noteq> []"
    and e: "JSON_parse v = Inl err"
  shows "fst (checkRateLimit config fp now s) = Inl err"
proof -
  have t: "truthy (Some v)" using v by (simp add: truthy_def)
  have "hasWindow (snd (detectManipulation config fp s))
      \<and> localStorage (snd (detectManipulation config fp s)) (storageKey config) = Some v"
    using w l t e by (simp add: detectManipulation_def Let_def str_of_def)
  then have "getMultiStorage (storageKey config) (snd (detectManipulation config fp s))
             = (Some v, snd (detectManipulation config fp s))"
    using t by (simp add: getMultiStorage_def)
  then show ?thesis
    using w fp t e by (simp add: checkRateLimit_def Let_def str_of_def)
qed

lemma mountEffect_discards:
  assumes "hasWindow s" and "fp \<noteq> []"
    and "fst (getMultiStorage (storageKey config) s) = Some v" and "v \<noteq> []"
    and "JSON_parse v = Inl err"
  shows "localStorage (mountEffect config fp now s) (storageKey config) = None
       \<and> sessionStorage (mountEffect config fp now s) (storageKey config) = None
       \<and> cookieJar (mountEffect config fp now s) = cookieJar s"
proof -
  have "cookieJar (snd (getMultiStorage (storageKey config) s)) = cookieJar s"
    by (simp add: getMultiStorage_def split: option.splits)
  then show ?thesis
    using assms by (simp add: mountEffect_def Let_def truthy_def str_of_def)
qed


section \<open>Properties of the server gate\<close>

lemma server_inv_empty: "server_inv Map.empty"
  by (simp add: server_inv_def)

lemma server_invD:
  "server_inv m \<Longrightarrow> m clientId = Some r \<Longrightarrow> 1 \<le> count_srv r \<and> count_srv r \<le> 2"
  by (simp add: server_inv_def RATE_LIMIT_maxRequests_def)

lemma server_inv_isRateLimited:
  assumes "server_inv m"
  shows "server_inv (snd (isRateLimited now clientId m))"
  unfolding server_inv_def
proof (intro allI impI)
  fix c r
  assume "snd (isRateLimited now clientId m) c = Some r"
  then show "1 \<le> count_srv r \<and> count_srv r \<le> RATE_LIMIT_maxRequests"
    using server_invD [OF assms, of c] server_invD [OF assms, of clientId]
    by (auto simp: isRateLimited_def RATE_LIMIT_maxRequests_def Let_def
             split: option.splits if_splits)
qed

lemma server_inv_evictionSweep: "server_inv m \<Longrightarrow> server_inv (evictionSweep now m)"
  by (auto simp: server_inv_def evictionSweep_def split: option.splits if_splits)

lemma server_inv_step: "server_inv m \<Longrightarrow> server_inv (server_step m ev)"
  by (cases ev) (simp_all add: server_inv_isRateLimited server_inv_evictionSweep)

lemma server_inv_foldl: "server_inv m \<Longrightarrow> server_inv (foldl server_step m evs)"
  by (induction evs arbitrary: m) (simp_all add: server_inv_step)

lemma server_inv_run: "server_inv (server_run evs)"
  by (simp add: server_run_def server_inv_foldl server_inv_empty)

lemma isRateLimited_denied_frame:
  "limited (fst (isRateLimited now clientId m)) \<Longrightarrow> snd (isRateLimited now clientId m) = m"
  by (auto simp: isRateLimited_def Let_def split: option.splits if_splits)

lemma isRateLimited_admitted:
  "server_inv m \<Longrightarrow> \<not> limited (fst (isRateLimited now clientId m)) \<Longrightarrow>
   \<exists>record. snd (isRateLimited now clientId m) clientId = Some record \<and>
     remainingRequests_srv (fst (isRateLimited now clientId m))
       = RATE_LIMIT_maxRequests - count_srv record \<and>
     0 \<le> remainingRequests_srv (fst (isRateLimited now clientId m))"
proof (cases "m clientId")
  case None
  then show ?thesis
    by (simp add: isRateLimited_def RATE_LIMIT_maxRequests_def)
next
  case (Some r)
  assume inv: "server_inv m" and adm: "\<not> limited (fst (isRateLimited now clientId m))"
  from inv Some have "1 \<le> count_srv r"
    by (simp add: server_inv_def)
  with Some adm show ?thesis
    by (simp add: isRateLimited_def RATE_LIMIT_maxRequests_def Let_def split: if_splits)
qed


section \<open>Theorems about the client gate\<close>

text \<open>
  C1. Client gate: after any sequence of \<open>checkRateLimit\<close> calls under one configuration
  (\<open>maxRequests > 0\<close>) and one fingerprint, started with no stored record, the stored
  record's count is at most \<open>maxRequests\<close> (whether or not the window is still open); the
  next call does not throw, and if it is blocked it leaves the three backends and the
  stored record as they were. Server gate: after any sequence of requests and sweeps every
  count in the map is at most \<open>maxRequests\<close>, and a call that is limited leaves the map
  as it was.
\<close>

theorem count_never_exceeds_max:
  assumes "0 < maxRequests config" and "fp \<noteq> []"
    and "hasWindow s0" and "no_record (storageKey config) s0"
  shows "(\<forall>r. storedRecord (storageKey config) (client_run config fp nows s0) = Some r \<longrightarrow>
            count r \<le> maxRequests config)
       \<and> (\<exists>b. fst (checkRateLimit config fp now (client_run config fp nows s0)) = Inr b)
       \<and> (fst (checkRateLimit config fp now (client_run config fp nows s0)) = Inr True \<longrightarrow>
            localStorage (snd (checkRateLimit config fp now (client_run config fp nows s0)))
              = localStorage (client_run config fp nows s0)
          \<and> sessionStorage (snd (checkRateLimit config fp now (client_run config fp nows s0)))
              = sessionStorage (client_run config fp nows s0)
          \<and> cookieJar (snd (checkRateLimit config fp now (client_run config fp nows s0)))
              = cookieJar (client_run config fp nows s0)
          \<and> storedRecord (storageKey config)
                (snd (checkRateLimit config fp now (client_run config fp nows s0)))
              = storedRecord (storageKey config) (client_run config fp nows s0))
       \<and> (\<forall>r. server_run evs clientId = Some r \<longrightarrow> count_srv r \<le> RATE_LIMIT_maxRequests)
       \<and> (limited (fst (isRateLimited now' clientId (server_run evs))) \<longrightarrow>
            snd (isRateLimited now' clientId (server_run evs)) = server_run evs)"
proof -
  have inv: "client_inv config (client_run config fp nows s0)"
    using assms by (simp add: client_inv_run client_inv_start)
  have "\<forall>r. storedRecord (storageKey config) (client_run config fp nows s0) = Some r \<longrightarrow>
          count r \<le> maxRequests config"
    using client_inv_bound [OF inv] by blast
  moreover have "\<forall>r. server_run evs clientId = Some r \<longrightarrow> count_srv r \<le> RATE_LIMIT_maxRequests"
    using server_inv_run [of evs] by (simp add: server_inv_def)
  moreover have "limited (fst (isRateLimited now' clientId (server_run evs))) \<longrightarrow>
                   snd (isRateLimited now' clientId (server_run evs)) = server_run evs"
    by (simp add: isRateLimited_denied_frame)
  ultimately show ?thesis
    using checkRateLimit_step [OF assms(1,2) inv, of now] by blast
qed

theorem count_never_exceeds_max_witness:
  "0 < maxRequests \<lparr>maxRequests = 2, windowMs = 86400000, storageKey = ''rl''\<rparr>
   \<and> hasWindow (initial_state \<lparr>maxRequests = 2, windowMs = 86400000, storageKey = ''rl''\<rparr>)
   \<and> no_record ''rl'' (initial_state \<lparr>maxRequests = 2, windowMs = 86400000, storageKey = ''rl''\<rparr>)
   \<and> storedRecord ''rl''
        (client_run \<lparr>maxRequests = 2, windowMs = 86400000, storageKey = ''rl''\<rparr> ''F2'' [0, 1000]
           (initial_state \<lparr>maxRequests = 2, windowMs = 86400000, storageKey = ''rl''\<rparr>))
       = Some \<lparr>timestamp = 0, count = 2, fingerprint = Some ''F2''\<rparr>
   \<and> count \<lparr>timestamp = 0, count = 2, fingerprint = Some ''F2''\<rparr> \<le> 2
   \<and> fst (checkRateLimit \<lparr>maxRequests = 2, windowMs = 86400000, storageKey = ''rl''\<rparr> ''F2'' 2000
        (client_run \<lparr>maxRequests = 2, windowMs = 86400000, storageKey = ''rl''\<rparr> ''F2'' [0, 1000]
           (initial_state \<lparr>maxRequests = 2, windowMs = 86400000, storageKey = ''rl''\<rparr>)))
       = Inr True
   \<and> storedRecord ''rl''
        (snd (checkRateLimit \<lparr>maxRequests = 2, windowMs = 86400000, storageKey = ''rl''\<rparr> ''F2'' 2000
           (client_run \<lparr>maxRequests = 2, windowMs = 86400000, storageKey = ''rl''\<rparr> ''F2'' [0, 1000]
              (initial_state \<lparr>maxRequests = 2, windowMs = 86400000, storageKey = ''rl''\<rparr>))))
       = Some \<lparr>timestamp = 0, count = 2, fingerprint = Some ''F2''\<rparr>
   \<and> server_run [Request ''c'' 0, Request ''c'' 1000] ''c''
       = Some \<lparr>count_srv = 2, timestamp_srv = 0\<rparr>
   \<and> limited (fst (isRateLimited 2000 ''c'' (server_run [Request ''c'' 0, Request ''c'' 1000])))
   \<and> snd (isRateLimited 2000 ''c'' (server_run [Request ''c'' 0, Request ''c'' 1000]))
       = server_run [Request ''c'' 0, Request ''c'' 1000]"
proof -
  let ?c = "\<lparr>maxRequests = 2, windowMs = 86400000, storageKey = ''rl''\<rparr>"
  let ?s = "client_run ?c ''F2'' [0, 1000] (initial_state ?c)"
  let ?r = "\<lparr>timestamp = 0, count = 2, fingerprint = Some ''F2''\<rparr>"
  let ?evs = "[Request ''c'' 0, Request ''c'' 1000]"
  have a1: "0 < maxRequests ?c" by simp
  have a2: "''F2'' \<noteq> []" by simp
  have a3: "hasWindow (initial_state ?c)" by (rule hasWindow_initial)
  have a4: "no_record (storageKey ?c) (initial_state ?c)" by (simp add: no_record_initial)
  have st: "holds_record ''rl'' ?r ?s \<and> hasWindow ?s"
    using two_admitted_calls [OF a2 a3, of "''rl''"] by (simp add: no_record_initial)
  then have sr: "storedRecord ''rl'' ?s = Some ?r"
    by (simp add: storedRecord_holds)
  have hh: "holds_record (storageKey ?c) ?r ?s" and ww: "hasWindow ?s"
    using st by simp_all
  have bl: "fst (checkRateLimit ?c ''F2'' 2000 ?s) = Inr True"
    by (simp add: checkRateLimit_holds [OF ww a2 hh] decide_blocked)
  have sv: "server_run ?evs ''c'' = Some \<lparr>count_srv = 2, timestamp_srv = 0\<rparr>"
    by (simp add: server_run_def isRateLimited_def RATE_LIMIT_maxRequests_def
                  RATE_LIMIT_windowMs_def)
  have sl: "limited (fst (isRateLimited 2000 ''c'' (server_run ?evs)))"
    by (simp add: server_run_def isRateLimited_def RATE_LIMIT_maxRequests_def
                  RATE_LIMIT_windowMs_def)
  from count_never_exceeds_max [OF a1 a2 a3 a4, of "[0, 1000]" 2000 ?evs "''c''" 2000] sr bl sv sl
  have "count ?r \<le> maxRequests ?c
      \<and> storedRecord (storageKey ?c) (snd (checkRateLimit ?c ''F2'' 2000 ?s)) = Some ?r
      \<and> snd (isRateLimited 2000 ''c'' (server_run ?evs)) = server_run ?evs"
    by simp
  with a1 a3 a4 sr bl sv sl show ?thesis
    by simp
qed

text \<open>
  C2. With \<open>maxRequests = 2\<close> and \<open>windowMs = 86400000\<close>, from a state with no stored
  record and with a fingerprint available, the calls at 0, 1000, 2000 and 86400001 give:
  admitted with 1 remaining; admitted with 0 remaining; blocked with 0 remaining and
  \<open>resetTime = 86400000\<close>; admitted with 1 remaining.
\<close>

theorem beta_scenario:
  assumes fp: "fp \<noteq> []" and w: "hasWindow s0" and none: "no_record key s0"
  shows "client_trace \<lparr>maxRequests = 2, windowMs = 86400000, storageKey = key\<rparr> fp
           [0, 1000, 2000, 86400001] s0
         = [(Inr False, 1, None), (Inr False, 0, Some 86400000),
            (Inr True, 0, Some 86400000), (Inr False, 1, None)]"
proof -
  let ?c = "\<lparr>maxRequests = 2, windowMs = 86400000, storageKey = key\<rparr>"
  let ?r1 = "\<lparr>timestamp = 0, count = 1, fingerprint = Some fp\<rparr>"
  let ?r2 = "\<lparr>timestamp = 0, count = 2, fingerprint = Some fp\<rparr>"
  let ?r4 = "\<lparr>timestamp = 86400001, count = 1, fingerprint = Some fp\<rparr>"
  let ?s1 = "snd (checkRateLimit ?c fp 0 s0)"
  let ?s2 = "snd (checkRateLimit ?c fp 1000 ?s1)"
  let ?s3 = "snd (checkRateLimit ?c fp 2000 ?s2)"
  have none': "no_record (storageKey ?c) s0" using none by simp
  have c1: "checkRateLimit ?c fp 0 s0
            = (Inr False, (setMultiStorage key (JSON_stringify ?r1) s0)
                 \<lparr>isLimited := False, remainingRequests := 1, resetTime := None\<rparr>)"
    by (simp add: checkRateLimit_no_record [OF w fp none'] decide_open)
  have h1: "holds_record (storageKey ?c) ?r1 ?s1" and w1: "hasWindow ?s1"
    using holds_after_write [OF w, of key ?r1] by (simp_all add: c1)
  have c2: "checkRateLimit ?c fp 1000 ?s1
            = (Inr False, (setMultiStorage key (JSON_stringify ?r2) ?s1)
                 \<lparr>isLimited := False, remainingRequests := 0, resetTime := Some 86400000\<rparr>)"
    by (simp add: checkRateLimit_holds [OF w1 fp h1] decide_open)
  have h2: "holds_record (storageKey ?c) ?r2 ?s2" and w2: "hasWindow ?s2"
    using holds_after_write [OF w1, of key ?r2] by (simp_all add: c2)
  have c3: "checkRateLimit ?c fp 2000 ?s2
            = (Inr True, ?s2\<lparr>isLimited := True, remainingRequests := 0,
                            resetTime := Some 86400000\<rparr>)"
    by (simp add: checkRateLimit_holds [OF w2 fp h2] decide_blocked)
  have h3: "holds_record (storageKey ?c) ?r2 ?s3" and w3: "hasWindow ?s3"
    using h2 w2 by (simp_all add: c3 holds_record_def)
  have c4: "fst (checkRateLimit ?c fp 86400001 ?s3) = Inr False
          \<and> remainingRequests (snd (checkRateLimit ?c fp 86400001 ?s3)) = 1
          \<and> resetTime (snd (checkRateLimit ?c fp 86400001 ?s3)) = None"
    by (simp add: checkRateLimit_holds [OF w3 fp h3] decide_elapsed)
  have f1: "fst (checkRateLimit ?c fp 0 s0) = Inr False \<and> remainingRequests ?s1 = 1
            \<and> resetTime ?s1 = None"
    by (simp add: c1)
  have f2: "fst (checkRateLimit ?c fp 1000 ?s1) = Inr False \<and> remainingRequests ?s2 = 0
            \<and> resetTime ?s2 = Some 86400000"
    by (simp add: c2)
  have f3: "fst (checkRateLimit ?c fp 2000 ?s2) = Inr True \<and> remainingRequests ?s3 = 0
            \<and> resetTime ?s3 = Some 86400000"
    by (simp add: c3)
  show ?thesis
    by (simp add: f1 f2 f3 c4)
qed

theorem beta_scenario_witness:
  "''F2'' \<noteq> []
   \<and> hasWindow (initial_state \<lparr>maxRequests = 2, windowMs = 86400000, storageKey = ''rl''\<rparr>)
   \<and> no_record ''rl'' (initial_state \<lparr>maxRequests = 2, windowMs = 86400000, storageKey = ''rl''\<rparr>)
   \<and> client_trace \<lparr>maxRequests = 2, windowMs = 86400000, storageKey = ''rl''\<rparr> ''F2''
        [0, 1000, 2000, 86400001]
        (initial_state \<lparr>maxRequests = 2, windowMs = 86400000, storageKey = ''rl''\<rparr>)
      = [(Inr False, 1, None), (Inr False, 0, Some 86400000),
         (Inr True, 0, Some 86400000), (Inr False, 1, None)]"
proof -
  have a: "''F2'' \<noteq> []" by simp
  from beta_scenario [OF a hasWindow_initial no_record_initial] show ?thesis
    by (simp add: hasWindow_initial no_record_initial)
qed

text \<open>
  C4. A stored text that is not JSON makes \<open>checkRateLimit\<close> throw: the parse error leaves
  the function. The mount effect does catch the error and clears both Web storages, but the
  cookie keeps the text, and the next read restores it.
\<close>

theorem checkRateLimit_corrupt_record_throws:
  "localStorage (mountEffect example_config ''F2'' 500 corrupt_cookie_state) ''rl'' = None
   \<and> sessionStorage (mountEffect example_config ''F2'' 500 corrupt_cookie_state) ''rl'' = None
   \<and> fst (checkRateLimit example_config ''F2'' 1000
        (mountEffect example_config ''F2'' 500 corrupt_cookie_state))
      = Inl SyntaxError
   \<and> fst (checkRateLimit example_config ''F2'' 1000
        ((initial_state example_config)
           \<lparr>localStorage := [''rl'' \<mapsto> ''{corrupt''], sessionStorage := [''rl'' \<mapsto> ''{corrupt'']\<rparr>))
      = Inl SyntaxError"
proof -
  let ?m = "mountEffect example_config ''F2'' 500 corrupt_cookie_state"
  have w: "hasWindow corrupt_cookie_state"
    by (simp add: corrupt_cookie_state_def hasWindow_initial)
  have fp: "''F2'' \<noteq> []" by simp
  have k: "storageKey example_config = ''rl''" by (simp add: example_config_def)
  have rd: "fst (getMultiStorage (storageKey example_config) corrupt_cookie_state)
            = Some ''{corrupt''"
    by (simp add: k getMultiStorage_def corrupt_cookie_state_def initial_state_def truthy_def
                  scan_corrupt_cookie del: cookie_string.simps)
  have ne: "''{corrupt'' \<noteq> []" by simp
  from mountEffect_discards [OF w fp rd ne parse_corrupt, where now = 500]
  have m: "localStorage ?m ''rl'' = None" "sessionStorage ?m ''rl'' = None"
    "cookieJar ?m = [(''rl'', ''{corrupt'')]"
    by (simp_all add: k corrupt_cookie_state_def)
  have wm: "hasWindow ?m"
    using w by (simp add: mountEffect_def Let_def getMultiStorage_def split: option.splits sum.splits)
  have dm: "detectManipulation example_config ''F2'' ?m = (False, ?m)"
    using wm m by (simp add: detectManipulation_def k Let_def truthy_def)
  have gm: "fst (getMultiStorage ''rl'' ?m) = Some ''{corrupt''"
    using wm m
    by (simp add: getMultiStorage_def truthy_def scan_corrupt_cookie del: cookie_string.simps)
  have c1: "fst (checkRateLimit example_config ''F2'' 1000 ?m) = Inl SyntaxError"
    using wm by (simp add: checkRateLimit_def dm k gm Let_def truthy_def str_of_def parse_corrupt)
  let ?s = "(initial_state example_config)
              \<lparr>localStorage := [''rl'' \<mapsto> ''{corrupt''], sessionStorage := [''rl'' \<mapsto> ''{corrupt'']\<rparr>"
  have ws: "hasWindow ?s" by (simp add: hasWindow_initial)
  have ls: "localStorage ?s (storageKey example_config) = Some ''{corrupt''" by (simp add: k)
  from checkRateLimit_throws [OF ws fp ls ne parse_corrupt, where now = 1000] m c1 show ?thesis
    by simp
qed

text \<open>
  At that input the guard of \<open>checkRateLimit\<close> does not fire (there is a window and a
  fingerprint), and the call is neither admitted nor blocked.
\<close>

theorem checkRateLimit_corrupt_record_throws_witness:
  "hasWindow (mountEffect example_config ''F2'' 500 corrupt_cookie_state)
   \<and> ''F2'' \<noteq> []
   \<and> fst (checkRateLimit example_config ''F2'' 1000
        (mountEffect example_config ''F2'' 500 corrupt_cookie_state))
      \<noteq> Inr False
   \<and> fst (checkRateLimit example_config ''F2'' 1000
        (mountEffect example_config ''F2'' 500 corrupt_cookie_state))
      \<noteq> Inr True"
proof -
  have "hasWindow corrupt_cookie_state"
    by (simp add: corrupt_cookie_state_def hasWindow_initial)
  then have "hasWindow (mountEffect example_config ''F2'' 500 corrupt_cookie_state)"
    by (simp add: mountEffect_def Let_def getMultiStorage_def split: option.splits sum.splits)
  with checkRateLimit_corrupt_record_throws show ?thesis
    by simp
qed

text \<open>
  C5, as amended. For every record: after it has been written to all three backends and
  then deleted from exactly one of them, a read returns the text of the record (which
  parses back to the record). If the
  backend that lost it was \<open>localStorage\<close>, the read puts the text back there, and the
  state is again the one after the write. If it was \<open>sessionStorage\<close> or the cookie
  (whatever the cookies then are), the read changes nothing: that backend stays without
  the record.
\<close>

theorem read_after_one_backend_deleted:
  assumes "hasWindow s"
  shows "getMultiStorage key
           ((setMultiStorage key (JSON_stringify r) s)
              \<lparr>localStorage :=
                 (localStorage (setMultiStorage key (JSON_stringify r) s))(key := None)\<rparr>)
         = (Some (JSON_stringify r), setMultiStorage key (JSON_stringify r) s)
       \<and> getMultiStorage key
           ((setMultiStorage key (JSON_stringify r) s)
              \<lparr>sessionStorage :=
                 (sessionStorage (setMultiStorage key (JSON_stringify r) s))(key := None)\<rparr>)
         = (Some (JSON_stringify r),
            (setMultiStorage key (JSON_stringify r) s)
              \<lparr>sessionStorage :=
                 (sessionStorage (setMultiStorage key (JSON_stringify r) s))(key := None)\<rparr>)
       \<and> getMultiStorage key ((setMultiStorage key (JSON_stringify r) s)\<lparr>cookieJar := jar\<rparr>)
         = (Some (JSON_stringify r),
            (setMultiStorage key (JSON_stringify r) s)\<lparr>cookieJar := jar\<rparr>)
       \<and> JSON_parse (JSON_stringify r) = Inr r"
  using read_local_deleted [OF assms JSON_stringify_nonempty]
        read_session_deleted [OF assms JSON_stringify_nonempty]
        read_cookie_changed [OF assms JSON_stringify_nonempty]
        JSON_roundtrip
  by blast

theorem read_after_one_backend_deleted_witness:
  "hasWindow (initial_state example_config)
   \<and> getMultiStorage ''rl''
        (written_state\<lparr>localStorage := (localStorage written_state)(''rl'' := None)\<rparr>)
      = (Some (JSON_stringify example_record), written_state)
   \<and> getMultiStorage ''rl'' (written_state\<lparr>cookieJar := []\<rparr>)
      = (Some (JSON_stringify example_record), written_state\<lparr>cookieJar := []\<rparr>)"
  using read_after_one_backend_deleted
          [OF hasWindow_initial [of example_config],
           where key = "''rl''" and r = example_record and jar = "[]"]
  by (simp add: written_state_def hasWindow_initial)

text \<open>
  C5, as stated, fails: after the write, take the record out of \<open>sessionStorage\<close>, or out
  of the cookies; the read returns the text and leaves that backend empty.
\<close>

theorem read_does_not_refill_session_counterexample:
  "localStorage written_state ''rl'' = Some (JSON_stringify example_record)
   \<and> sessionStorage written_state ''rl'' = Some (JSON_stringify example_record)
   \<and> cookieJar written_state = [(''rl'', JSON_stringify example_record)]
   \<and> fst (getMultiStorage ''rl''
        (written_state\<lparr>sessionStorage := (sessionStorage written_state)(''rl'' := None)\<rparr>))
      = Some (JSON_stringify example_record)
   \<and> sessionStorage
        (snd (getMultiStorage ''rl''
           (written_state\<lparr>sessionStorage := (sessionStorage written_state)(''rl'' := None)\<rparr>)))
        ''rl''
      = None
   \<and> cookieJar (snd (getMultiStorage ''rl'' (written_state\<lparr>cookieJar := []\<rparr>))) = []"
proof -
  have w: "hasWindow (initial_state example_config)" by (rule hasWindow_initial)
  have "localStorage written_state ''rl'' = Some (JSON_stringify example_record)"
    and "sessionStorage written_state ''rl'' = Some (JSON_stringify example_record)"
    by (simp_all add: written_state_def setMultiStorage_def hasWindow_initial)
  moreover from read_session_deleted [OF w JSON_stringify_nonempty [of example_record], where key = "''rl''"]
  have "fst (getMultiStorage ''rl''
          (written_state\<lparr>sessionStorage := (sessionStorage written_state)(''rl'' := None)\<rparr>))
        = Some (JSON_stringify example_record)"
    and "sessionStorage
          (snd (getMultiStorage ''rl''
             (written_state\<lparr>sessionStorage := (sessionStorage written_state)(''rl'' := None)\<rparr>)))
          ''rl'' = None"
    by (simp_all add: written_state_def)
  moreover from read_cookie_changed
                   [OF w JSON_stringify_nonempty [of example_record],
                    where key = "''rl''" and jar = "[]"]
  have "cookieJar (snd (getMultiStorage ''rl'' (written_state\<lparr>cookieJar := []\<rparr>))) = []"
    by (simp add: written_state_def)
  ultimately show ?thesis
    using written_state_cookie by blast
qed

text \<open>
  What \<open>reset\<close> does in every state of a page: it removes the record from \<open>localStorage\<close>
  and from \<open>sessionStorage\<close> and publishes \<open>isLimited = false\<close>,
  \<open>remainingRequests = maxRequests\<close>, \<open>resetTime = null\<close>. It leaves the cookies as they
  are, so a read after it returns what the cookie of that name holds.
\<close>

lemma reset_clears_web_storages:
  assumes "hasWindow s"
  shows "\<exists>s'. reset config s = Inr s'
           \<and> localStorage s' (storageKey config) = None
           \<and> sessionStorage s' (storageKey config) = None
           \<and> cookieJar s' = cookieJar s
           \<and> isLimited s' = False
           \<and> remainingRequests s' = maxRequests config
           \<and> resetTime s' = None
           \<and> fst (getMultiStorage (storageKey config) s')
               = cookie_scan (storageKey config) (split_on CHR '';'' (cookie_string (cookieJar s)))"
  using assms
  by (simp add: reset_result getMultiStorage_def truthy_def split: option.splits)

text \<open>
  C6. \<open>reset\<close> does not reach the third backend. Called on a page limited by a record with
  \<open>count = 2\<close>, it clears both Web storages and publishes fresh state, but the cookie still
  holds the record: a read after it returns the record, and the next \<open>checkRateLimit\<close> in
  the same window is blocked again, with \<open>remainingRequests = 0\<close>.
\<close>

theorem reset_leaves_user_blocked:
  "reset example_config written_state = Inr after_reset_state
   \<and> isLimited after_reset_state = False
   \<and> remainingRequests after_reset_state = 2
   \<and> resetTime after_reset_state = None
   \<and> localStorage after_reset_state ''rl'' = None
   \<and> sessionStorage after_reset_state ''rl'' = None
   \<and> cookieJar after_reset_state = [(''rl'', JSON_stringify example_record)]
   \<and> fst (getMultiStorage ''rl'' after_reset_state) = Some (JSON_stringify example_record)
   \<and> fst (checkRateLimit example_config ''F1'' 1000 after_reset_state) = Inr True
   \<and> isLimited (snd (checkRateLimit example_config ''F1'' 1000 after_reset_state)) = True
   \<and> remainingRequests (snd (checkRateLimit example_config ''F1'' 1000 after_reset_state)) = 0"
proof -
  have w: "hasWindow written_state"
    by (simp add: written_state_def setMultiStorage_hasWindow hasWindow_initial)
  have k: "storageKey example_config = ''rl''" by (simp add: example_config_def)
  have r: "reset example_config written_state = Inr after_reset_state"
    using reset_result [OF w, of example_config]
    by (simp add: example_config_def after_reset_state_def)
  have wa: "hasWindow after_reset_state"
    using w by (simp add: after_reset_state_def)
  have ui: "isLimited after_reset_state = False" "remainingRequests after_reset_state = 2"
    "resetTime after_reset_state = None" "localStorage after_reset_state ''rl'' = None"
    "sessionStorage after_reset_state ''rl'' = None"
    by (simp_all add: after_reset_state_def)
  have cj: "cookieJar after_reset_state = [(''rl'', JSON_stringify example_record)]"
    by (simp add: after_reset_state_def written_state_cookie)
  have gm: "fst (getMultiStorage ''rl'' after_reset_state) = Some (JSON_stringify example_record)"
    using wa ui cj
    by (simp add: getMultiStorage_def truthy_def scan_written_cookie del: cookie_string.simps)
  have dm: "detectManipulation example_config ''F1'' after_reset_state = (False, after_reset_state)"
    using wa ui by (simp add: detectManipulation_def k Let_def truthy_def)
  have ch: "checkRateLimit example_config ''F1'' 1000 after_reset_state
            = (Inr (fst (checkRateLimit_decide example_config ''F1'' 1000 example_record
                           (snd (getMultiStorage ''rl'' after_reset_state)))),
               snd (checkRateLimit_decide example_config ''F1'' 1000 example_record
                      (snd (getMultiStorage ''rl'' after_reset_state))))"
    using wa
    by (simp add: checkRateLimit_def dm k gm Let_def truthy_stringify str_of_def JSON_roundtrip)
  have bl: "checkRateLimit_decide example_config ''F1'' 1000 example_record
              (snd (getMultiStorage ''rl'' after_reset_state))
            = (True, (snd (getMultiStorage ''rl'' after_reset_state))
                 \<lparr>isLimited := True, remainingRequests := 0, resetTime := Some 86400000\<rparr>)"
    by (simp add: decide_blocked example_config_def example_record_def)
  show ?thesis
    using r ui cj gm by (simp add: ch bl)
qed

text \<open>
  At that input the guard of \<open>checkRateLimit\<close> does not fire (there is a window and a
  fingerprint), and the call after the reset is not admitted.
\<close>

theorem reset_leaves_user_blocked_witness:
  "hasWindow after_reset_state \<and> ''F1'' \<noteq> []
   \<and> fst (checkRateLimit example_config ''F1'' 1000 after_reset_state) \<noteq> Inr False"
proof -
  have "hasWindow after_reset_state"
    by (simp add: after_reset_state_def written_state_def setMultiStorage_hasWindow
                  hasWindow_initial)
  with reset_leaves_user_blocked show ?thesis
    by simp
qed

text \<open>
  C8, as amended. When the record held by the Web storages (in \<open>localStorage\<close>, or in
  \<open>sessionStorage\<close> when \<open>localStorage\<close> has none) carries a fingerprint \<open>F1\<close> that differs
  from the session's fingerprint, \<open>detectManipulation\<close> returns \<open>true\<close>; it leaves
  \<open>isLimited\<close>, \<open>remainingRequests\<close>, \<open>resetTime\<close> and the cookies as they were, writes to
  a storage nothing but the text of that record, and the stored record (so its count) is
  the same before and after.
\<close>

theorem detectManipulation_mismatch:
  assumes "hasWindow s" and "fp \<noteq> []"
    and "fingerprint r = Some F1" and "F1 \<noteq> []" and "F1 \<noteq> fp"
    and "localStorage s (storageKey config) = Some (JSON_stringify r)
         \<or> (\<not> truthy (localStorage s (storageKey config))
            \<and> sessionStorage s (storageKey config) = Some (JSON_stringify r))"
  shows "fst (detectManipulation config fp s) = True
       \<and> isLimited (snd (detectManipulation config fp s)) = isLimited s
       \<and> remainingRequests (snd (detectManipulation config fp s)) = remainingRequests s
       \<and> resetTime (snd (detectManipulation config fp s)) = resetTime s
       \<and> cookieJar (snd (detectManipulation config fp s)) = cookieJar s
       \<and> (localStorage (snd (detectManipulation config fp s)) = localStorage s
          \<or> localStorage (snd (detectManipulation config fp s))
              = (localStorage s)(storageKey config \<mapsto> JSON_stringify r))
       \<and> (sessionStorage (snd (detectManipulation config fp s)) = sessionStorage s
          \<or> sessionStorage (snd (detectManipulation config fp s))
              = (sessionStorage s)(storageKey config \<mapsto> JSON_stringify r))
       \<and> storedRecord (storageKey config) s = Some r
       \<and> storedRecord (storageKey config) (snd (detectManipulation config fp s)) = Some r"
proof -
  let ?k = "storageKey config"
  let ?v = "JSON_stringify r"
  have tf: "truthy (fingerprint r)" and nf: "fingerprint r \<noteq> Some fp"
    using assms(3,4,5) by (simp_all add: truthy_def)
  from assms(6) consider
      (both) "localStorage s ?k = Some ?v" "truthy (sessionStorage s ?k)"
    | (durable) "localStorage s ?k = Some ?v" "\<not> truthy (sessionStorage s ?k)"
    | (session) "\<not> truthy (localStorage s ?k)" "sessionStorage s ?k = Some ?v"
    by blast
  then show ?thesis
  proof cases
    case both
    have dm: "detectManipulation config fp s = (True, s)"
      using assms(1,2) both tf nf
      by (simp add: detectManipulation_def Let_def truthy_stringify str_of_def JSON_roundtrip)
    show ?thesis
      using both(1) assms(1) by (simp add: dm storedRecord_def getMultiStorage_local JSON_roundtrip)
  next
    case durable
    have dm: "detectManipulation config fp s
              = (True, s\<lparr>sessionStorage := (sessionStorage s)(?k \<mapsto> ?v)\<rparr>)"
      using assms(1,2) durable
      by (simp add: detectManipulation_def Let_def truthy_stringify str_of_def)
    show ?thesis
      using durable(1) assms(1)
      by (simp add: dm storedRecord_def getMultiStorage_local JSON_roundtrip)
  next
    case session
    have dm: "detectManipulation config fp s
              = (True, s\<lparr>localStorage := (localStorage s)(?k \<mapsto> ?v)\<rparr>)"
      using assms(1,2) session
      by (simp add: detectManipulation_def Let_def truthy_stringify str_of_def)
    have rd: "fst (getMultiStorage ?k s) = Some ?v"
      using assms(1) session by (simp add: getMultiStorage_def truthy_stringify)
    show ?thesis
      using assms(1)
      by (simp add: dm storedRecord_def rd getMultiStorage_local JSON_roundtrip)
  qed
qed

theorem detectManipulation_mismatch_witness:
  "hasWindow
     (setMultiStorage ''rl'' (JSON_stringify \<lparr>timestamp = 0, count = 2, fingerprint = Some ''F1''\<rparr>)
        (initial_state \<lparr>maxRequests = 2, windowMs = 86400000, storageKey = ''rl''\<rparr>))
   \<and> fingerprint \<lparr>timestamp = 0, count = 2, fingerprint = Some ''F1''\<rparr> = Some ''F1''
   \<and> ''F1'' \<noteq> ''F2''
   \<and> localStorage
       (setMultiStorage ''rl'' (JSON_stringify \<lparr>timestamp = 0, count = 2, fingerprint = Some ''F1''\<rparr>)
          (initial_state \<lparr>maxRequests = 2, windowMs = 86400000, storageKey = ''rl''\<rparr>)) ''rl''
       = Some (JSON_stringify \<lparr>timestamp = 0, count = 2, fingerprint = Some ''F1''\<rparr>)
   \<and> fst (detectManipulation \<lparr>maxRequests = 2, windowMs = 86400000, storageKey = ''rl''\<rparr> ''F2''
        (setMultiStorage ''rl'' (JSON_stringify \<lparr>timestamp = 0, count = 2, fingerprint = Some ''F1''\<rparr>)
           (initial_state \<lparr>maxRequests = 2, windowMs = 86400000, storageKey = ''rl''\<rparr>))) = True
   \<and> storedRecord ''rl''
        (snd (detectManipulation \<lparr>maxRequests = 2, windowMs = 86400000, storageKey = ''rl''\<rparr> ''F2''
           (setMultiStorage ''rl'' (JSON_stringify \<lparr>timestamp = 0, count = 2, fingerprint = Some ''F1''\<rparr>)
              (initial_state \<lparr>maxRequests = 2, windowMs = 86400000, storageKey = ''rl''\<rparr>))))
       = Some \<lparr>timestamp = 0, count = 2, fingerprint = Some ''F1''\<rparr>"
proof -
  let ?c = "\<lparr>maxRequests = 2, windowMs = 86400000, storageKey = ''rl''\<rparr>"
  let ?r = "\<lparr>timestamp = 0, count = 2, fingerprint = Some ''F1''\<rparr>"
  let ?s = "setMultiStorage ''rl'' (JSON_stringify ?r) (initial_state ?c)"
  have a1: "hasWindow ?s" by (simp add: setMultiStorage_hasWindow hasWindow_initial)
  have a2: "''F2'' \<noteq> []" by simp
  have a3: "fingerprint ?r = Some ''F1''" by simp
  have a4: "''F1'' \<noteq> []" by simp
  have a5: "''F1'' \<noteq> ''F2''" by simp
  have a6: "localStorage ?s (storageKey ?c) = Some (JSON_stringify ?r)"
    by (simp add: setMultiStorage_def hasWindow_initial)
  from detectManipulation_mismatch [OF a1 a2 a3 a4 a5 disjI1, OF a6] a1 a6 show ?thesis
    by simp
qed

text \<open>
  C8, as stated, fails: when only the cookie holds the record, a read observes it with its
  fingerprint \<open>F1\<close>, but \<open>detectManipulation\<close>, which looks at the two Web storages only,
  returns \<open>false\<close> to a session whose fingerprint is \<open>F2\<close>.
\<close>

theorem detectManipulation_cookie_only_counterexample:
  "storedRecord ''rl'' cookie_only_state = Some example_record
   \<and> fingerprint example_record = Some ''F1''
   \<and> ''F1'' \<noteq> ''F2''
   \<and> fst (detectManipulation example_config ''F2'' cookie_only_state) = False"
proof -
  have "fst (getMultiStorage ''rl'' cookie_only_state) = Some (JSON_stringify example_record)"
    by (simp add: getMultiStorage_def cookie_only_state_def initial_state_def truthy_def
                  scan_written_cookie del: cookie_string.simps)
  then have "storedRecord ''rl'' cookie_only_state = Some example_record"
    by (simp add: storedRecord_def JSON_roundtrip)
  moreover have "fst (detectManipulation example_config ''F2'' cookie_only_state) = False"
    by (simp add: detectManipulation_def cookie_only_state_def initial_state_def
                  example_config_def Let_def truthy_def)
  ultimately show ?thesis
    by (simp add: example_record_def)
qed

text \<open>
  C10. With \<open>maxRequests = 1\<close>, a call made once the stored record's window has elapsed
  (\<open>now \<ge> timestamp + windowMs\<close>) is admitted and leaves the fresh record
  \<open>{timestamp: now, count: 1}\<close> in the storages, but the \<open>resetTime\<close> it publishes is the
  old record's \<open>timestamp + windowMs\<close>, a time that is not after \<open>now\<close>, and not the end
  \<open>now + windowMs\<close> of the window that has just begun.
\<close>

theorem elapsed_publishes_old_resetTime:
  assumes "maxRequests config = 1" and "fp \<noteq> []" and "hasWindow s"
    and "localStorage s (storageKey config) = Some (JSON_stringify r)"
    and "timestamp r + windowMs config \<le> now"
  shows "fst (checkRateLimit config fp now s) = Inr False
       \<and> localStorage (snd (checkRateLimit config fp now s)) (storageKey config)
           = Some (JSON_stringify \<lparr>timestamp = now, count = 1, fingerprint = Some fp\<rparr>)
       \<and> sessionStorage (snd (checkRateLimit config fp now s)) (storageKey config)
           = Some (JSON_stringify \<lparr>timestamp = now, count = 1, fingerprint = Some fp\<rparr>)
       \<and> storedRecord (storageKey config) (snd (checkRateLimit config fp now s))
           = Some \<lparr>timestamp = now, count = 1, fingerprint = Some fp\<rparr>
       \<and> isLimited (snd (checkRateLimit config fp now s)) = False
       \<and> remainingRequests (snd (checkRateLimit config fp now s)) = 0
       \<and> resetTime (snd (checkRateLimit config fp now s)) = Some (timestamp r + windowMs config)
       \<and> timestamp r + windowMs config \<le> now
       \<and> (0 < windowMs config \<longrightarrow>
            resetTime (snd (checkRateLimit config fp now s)) \<noteq> Some (now + windowMs config))"
proof -
  let ?s1 = "snd (detectManipulation config fp s)"
  let ?r1 = "\<lparr>timestamp = now, count = 1, fingerprint = Some fp\<rparr>"
  let ?s0 = "setMultiStorage (storageKey config)
               (JSON_stringify \<lparr>timestamp = now, count = 0, fingerprint = Some fp\<rparr>) ?s1"
  have mx: "0 < maxRequests config" using assms(1) by simp
  have w1: "hasWindow ?s1"
    using detectManipulation_local [OF assms(3,4), of fp] by blast
  then have w0: "hasWindow ?s0" by (simp add: setMultiStorage_hasWindow)
  have eq: "checkRateLimit config fp now s
            = (Inr False,
               (setMultiStorage (storageKey config) (JSON_stringify ?r1) ?s0)
               \<lparr>isLimited := False, remainingRequests := 0,
                resetTime := Some (timestamp r + windowMs config)\<rparr>)"
    using assms(1)
    by (simp add: checkRateLimit_local [OF assms(3,2,4)] decide_elapsed [OF assms(5) mx])
  have h: "holds_record (storageKey config) ?r1 (snd (checkRateLimit config fp now s))"
    and w': "hasWindow (snd (checkRateLimit config fp now s))"
    using holds_after_write [OF w0, of "storageKey config" ?r1] by (simp_all add: eq)
  from storedRecord_holds [OF w' h] h assms(5) show ?thesis
    by (simp add: eq holds_record_def)
qed

theorem elapsed_publishes_old_resetTime_witness:
  "maxRequests \<lparr>maxRequests = 1, windowMs = 86400000, storageKey = ''rl''\<rparr> = 1
   \<and> hasWindow
       (setMultiStorage ''rl'' (JSON_stringify \<lparr>timestamp = 0, count = 1, fingerprint = Some ''F2''\<rparr>)
          (initial_state \<lparr>maxRequests = 1, windowMs = 86400000, storageKey = ''rl''\<rparr>))
   \<and> localStorage
       (setMultiStorage ''rl'' (JSON_stringify \<lparr>timestamp = 0, count = 1, fingerprint = Some ''F2''\<rparr>)
          (initial_state \<lparr>maxRequests = 1, windowMs = 86400000, storageKey = ''rl''\<rparr>)) ''rl''
       = Some (JSON_stringify \<lparr>timestamp = 0, count = 1, fingerprint = Some ''F2''\<rparr>)
   \<and> timestamp \<lparr>timestamp = 0, count = 1, fingerprint = Some ''F2''\<rparr> + 86400000 \<le> 90000000
   \<and> fst (checkRateLimit \<lparr>maxRequests = 1, windowMs = 86400000, storageKey = ''rl''\<rparr> ''F2'' 90000000
        (setMultiStorage ''rl'' (JSON_stringify \<lparr>timestamp = 0, count = 1, fingerprint = Some ''F2''\<rparr>)
           (initial_state \<lparr>maxRequests = 1, windowMs = 86400000, storageKey = ''rl''\<rparr>)))
       = Inr False
   \<and> storedRecord ''rl''
        (snd (checkRateLimit \<lparr>maxRequests = 1, windowMs = 86400000, storageKey = ''rl''\<rparr> ''F2'' 90000000
           (setMultiStorage ''rl'' (JSON_stringify \<lparr>timestamp = 0, count = 1, fingerprint = Some ''F2''\<rparr>)
              (initial_state \<lparr>maxRequests = 1, windowMs = 86400000, storageKey = ''rl''\<rparr>))))
       = Some \<lparr>timestamp = 90000000, count = 1, fingerprint = Some ''F2''\<rparr>
   \<and> resetTime
        (snd (checkRateLimit \<lparr>maxRequests = 1, windowMs = 86400000, storageKey = ''rl''\<rparr> ''F2'' 90000000
           (setMultiStorage ''rl'' (JSON_stringify \<lparr>timestamp = 0, count = 1, fingerprint = Some ''F2''\<rparr>)
              (initial_state \<lparr>maxRequests = 1, windowMs = 86400000, storageKey = ''rl''\<rparr>))))
       = Some 86400000
   \<and> resetTime
        (snd (checkRateLimit \<lparr>maxRequests = 1, windowMs = 86400000, storageKey = ''rl''\<rparr> ''F2'' 90000000
           (setMultiStorage ''rl'' (JSON_stringify \<lparr>timestamp = 0, count = 1, fingerprint = Some ''F2''\<rparr>)
              (initial_state \<lparr>maxRequests = 1, windowMs = 86400000, storageKey = ''rl''\<rparr>))))
       \<noteq> Some (90000000 + 86400000)"
proof -
  let ?c = "\<lparr>maxRequests = 1, windowMs = 86400000, storageKey = ''rl''\<rparr>"
  let ?r = "\<lparr>timestamp = 0, count = 1, fingerprint = Some ''F2''\<rparr>"
  let ?s = "setMultiStorage ''rl'' (JSON_stringify ?r) (initial_state ?c)"
  have a1: "maxRequests ?c = 1" by simp
  have a2: "''F2'' \<noteq> []" by simp
  have a3: "hasWindow ?s" by (simp add: setMultiStorage_hasWindow hasWindow_initial)
  have a4: "localStorage ?s (storageKey ?c) = Some (JSON_stringify ?r)"
    by (simp add: setMultiStorage_def hasWindow_initial)
  have a5: "timestamp ?r + windowMs ?c \<le> 90000000" by simp
  from elapsed_publishes_old_resetTime [OF a1 a2 a3 a4 a5] a3 a4 show ?thesis
    by simp
qed


section \<open>Theorems about the server gate\<close>

text \<open>
  C7. The identity deriver is deterministic: two requests that agree on the headers
  \<open>x-forwarded-for\<close>, \<open>x-real-ip\<close>, \<open>x-client-ip\<close> and \<open>user-agent\<close> get the same
  identifier, whatever else differs between them.
\<close>

theorem getClientIdentifier_deterministic:
  assumes "headers r1 ''x-forwarded-for'' = headers r2 ''x-forwarded-for''"
    and "headers r1 ''x-real-ip'' = headers r2 ''x-real-ip''"
    and "headers r1 ''x-client-ip'' = headers r2 ''x-client-ip''"
    and "headers r1 ''user-agent'' = headers r2 ''user-agent''"
  shows "getClientIdentifier r1 = getClientIdentifier r2"
  using assms by (simp add: getClientIdentifier_def)

theorem getClientIdentifier_deterministic_witness:
  "headers \<lparr>headers = [''x-forwarded-for'' \<mapsto> ''203.0.113.5, 10.0.0.1'',
                         ''user-agent'' \<mapsto> ''Mozilla/5.0 '', ''accept'' \<mapsto> ''text/html'']\<rparr>
     ''user-agent''
   = headers \<lparr>headers = [''x-forwarded-for'' \<mapsto> ''203.0.113.5, 10.0.0.1'',
                           ''user-agent'' \<mapsto> ''Mozilla/5.0 '', ''accept'' \<mapsto> ''*/*'']\<rparr>
     ''user-agent''
   \<and> getClientIdentifier
       \<lparr>headers = [''x-forwarded-for'' \<mapsto> ''203.0.113.5, 10.0.0.1'',
                    ''user-agent'' \<mapsto> ''Mozilla/5.0 '', ''accept'' \<mapsto> ''text/html'']\<rparr>
     = getClientIdentifier
       \<lparr>headers = [''x-forwarded-for'' \<mapsto> ''203.0.113.5, 10.0.0.1'',
                    ''user-agent'' \<mapsto> ''Mozilla/5.0 '', ''accept'' \<mapsto> ''*/*'']\<rparr>"
  using getClientIdentifier_deterministic
    [of "\<lparr>headers = [''x-forwarded-for'' \<mapsto> ''203.0.113.5, 10.0.0.1'',
                      ''user-agent'' \<mapsto> ''Mozilla/5.0 '', ''accept'' \<mapsto> ''text/html'']\<rparr>"
        "\<lparr>headers = [''x-forwarded-for'' \<mapsto> ''203.0.113.5, 10.0.0.1'',
                      ''user-agent'' \<mapsto> ''Mozilla/5.0 '', ''accept'' \<mapsto> ''*/*'']\<rparr>"]
  by simp

text \<open>
  When strictly more than \<open>windowMs\<close> has passed since the stored record's \<open>timestamp\<close>
  (\<open>now - timestamp > windowMs\<close>, the comparison the gate makes), the call is admitted and
  installs the fresh record \<open>{count: 1, timestamp: now}\<close>, whatever the count was before.
\<close>

lemma isRateLimited_after_window:
  assumes "requestCounts clientId = Some r"
    and "now - timestamp_srv r > RATE_LIMIT_windowMs"
  shows "limited (fst (isRateLimited now clientId requestCounts)) = False
       \<and> remainingRequests_srv (fst (isRateLimited now clientId requestCounts))
           = RATE_LIMIT_maxRequests - 1
       \<and> snd (isRateLimited now clientId requestCounts) clientId
           = Some \<lparr>count_srv = 1, timestamp_srv = now\<rparr>"
  using assms by (simp add: isRateLimited_def)

lemma isRateLimited_after_window_example:
  "[''203.0.113.5_abcd1234'' \<mapsto> \<lparr>count_srv = 2, timestamp_srv = 0\<rparr>] ''203.0.113.5_abcd1234''
     = Some \<lparr>count_srv = 2, timestamp_srv = 0\<rparr>
   \<and> 86400001 - timestamp_srv \<lparr>count_srv = 2, timestamp_srv = 0\<rparr> > RATE_LIMIT_windowMs
   \<and> limited (fst (isRateLimited 86400001 ''203.0.113.5_abcd1234''
        [''203.0.113.5_abcd1234'' \<mapsto> \<lparr>count_srv = 2, timestamp_srv = 0\<rparr>])) = False
   \<and> snd (isRateLimited 86400001 ''203.0.113.5_abcd1234''
        [''203.0.113.5_abcd1234'' \<mapsto> \<lparr>count_srv = 2, timestamp_srv = 0\<rparr>])
        ''203.0.113.5_abcd1234''
     = Some \<lparr>count_srv = 1, timestamp_srv = 86400001\<rparr>"
proof -
  have h1: "[''203.0.113.5_abcd1234'' \<mapsto> \<lparr>count_srv = 2, timestamp_srv = 0\<rparr>]
              ''203.0.113.5_abcd1234'' = Some \<lparr>count_srv = 2, timestamp_srv = 0\<rparr>"
    by simp
  have h2: "86400001 - timestamp_srv \<lparr>count_srv = 2, timestamp_srv = 0\<rparr> > RATE_LIMIT_windowMs"
    by (simp add: RATE_LIMIT_windowMs_def)
  from isRateLimited_after_window
         [of "[''203.0.113.5_abcd1234'' \<mapsto> \<lparr>count_srv = 2, timestamp_srv = 0\<rparr>]"
             "''203.0.113.5_abcd1234''" "\<lparr>count_srv = 2, timestamp_srv = 0\<rparr>" 86400001,
          OF h1 h2] h1 h2
  show ?thesis
    by simp
qed

text \<open>
  C3. Exactly \<open>windowMs\<close> after \<open>timestamp\<close> the window has elapsed, and the server gate
  itself reports that instant as \<open>resetTime\<close>; yet a record that has reached the maximum is
  still denied there and left as it was. The client gate, on the same record at the same
  instant, takes the window as elapsed and admits.
\<close>

theorem isRateLimited_boundary_denied:
  "86400000 = timestamp_srv \<lparr>count_srv = 2, timestamp_srv = 0\<rparr> + RATE_LIMIT_windowMs
   \<and> limited (fst (isRateLimited 86400000 ''203.0.113.5_abcd1234''
        [''203.0.113.5_abcd1234'' \<mapsto> \<lparr>count_srv = 2, timestamp_srv = 0\<rparr>])) = True
   \<and> resetTime_srv (fst (isRateLimited 86400000 ''203.0.113.5_abcd1234''
        [''203.0.113.5_abcd1234'' \<mapsto> \<lparr>count_srv = 2, timestamp_srv = 0\<rparr>])) = Some 86400000
   \<and> snd (isRateLimited 86400000 ''203.0.113.5_abcd1234''
        [''203.0.113.5_abcd1234'' \<mapsto> \<lparr>count_srv = 2, timestamp_srv = 0\<rparr>])
        ''203.0.113.5_abcd1234''
     = Some \<lparr>count_srv = 2, timestamp_srv = 0\<rparr>
   \<and> fst (checkRateLimit_decide example_config ''F1'' 86400000 example_record written_state)
     = False"
  by (simp add: isRateLimited_def RATE_LIMIT_maxRequests_def RATE_LIMIT_windowMs_def
                decide_elapsed example_config_def example_record_def)

text \<open>
  C9. In every state of the map reached from the empty map by requests and eviction sweeps,
  each record present has \<open>1 \<le> count \<le> maxRequests\<close>; and every call admitted in such a
  state returns \<open>remainingRequests = maxRequests - count\<close>, for the count it has just stored,
  which is not negative.
\<close>

theorem server_count_bounds:
  "(\<forall>clientId r. server_run evs clientId = Some r \<longrightarrow>
      1 \<le> count_srv r \<and> count_srv r \<le> RATE_LIMIT_maxRequests)
   \<and> (\<forall>now clientId.
        \<not> limited (fst (isRateLimited now clientId (server_run evs))) \<longrightarrow>
        (\<exists>r. snd (isRateLimited now clientId (server_run evs)) clientId = Some r
           \<and> remainingRequests_srv (fst (isRateLimited now clientId (server_run evs)))
               = RATE_LIMIT_maxRequests - count_srv r
           \<and> 0 \<le> remainingRequests_srv (fst (isRateLimited now clientId (server_run evs)))))"
proof (intro conjI allI impI)
  fix clientId r
  assume "server_run evs clientId = Some r"
  with server_inv_run [of evs]
  show "1 \<le> count_srv r" and "count_srv r \<le> RATE_LIMIT_maxRequests"
    by (simp_all add: server_inv_def)
next
  fix now clientId
  assume "\<not> limited (fst (isRateLimited now clientId (server_run evs)))"
  then show "\<exists>r. snd (isRateLimited now clientId (server_run evs)) clientId = Some r
           \<and> remainingRequests_srv (fst (isRateLimited now clientId (server_run evs)))
               = RATE_LIMIT_maxRequests - count_srv r
           \<and> 0 \<le> remainingRequests_srv (fst (isRateLimited now clientId (server_run evs)))"
    by (rule isRateLimited_admitted [OF server_inv_run])
qed

theorem server_count_bounds_witness:
  "server_run [Request ''c'' 0, Sweep 500, Request ''c'' 1000] ''c''
     = Some \<lparr>count_srv = 2, timestamp_srv = 0\<rparr>
   \<and> 1 \<le> count_srv \<lparr>count_srv = 2, timestamp_srv = 0\<rparr>
   \<and> count_srv \<lparr>count_srv = 2, timestamp_srv = 0\<rparr> \<le> RATE_LIMIT_maxRequests
   \<and> \<not> limited (fst (isRateLimited 1000 ''c'' (server_run [Request ''c'' 0, Sweep 500])))
   \<and> 0 \<le> remainingRequests_srv
            (fst (isRateLimited 1000 ''c'' (server_run [Request ''c'' 0, Sweep 500])))"
proof -
  have e: "server_run [Request ''c'' 0, Sweep 500, Request ''c'' 1000] ''c''
             = Some \<lparr>count_srv = 2, timestamp_srv = 0\<rparr>"
    by (simp add: server_run_def isRateLimited_def evictionSweep_def
                  RATE_LIMIT_maxRequests_def RATE_LIMIT_windowMs_def)
  have a: "\<not> limited (fst (isRateLimited 1000 ''c'' (server_run [Request ''c'' 0, Sweep 500])))"
    by (simp add: server_run_def isRateLimited_def evictionSweep_def
                  RATE_LIMIT_maxRequests_def RATE_LIMIT_windowMs_def)
  from server_count_bounds [of "[Request ''c'' 0, Sweep 500, Request ''c'' 1000]"] e
  have b: "1 \<le> count_srv \<lparr>count_srv = 2, timestamp_srv = 0\<rparr>
         \<and> count_srv \<lparr>count_srv = 2, timestamp_srv = 0\<rparr> \<le> RATE_LIMIT_maxRequests"
    by blast
  from server_count_bounds [of "[Request ''c'' 0, Sweep 500]"] a
  have c: "0 \<le> remainingRequests_srv
                  (fst (isRateLimited 1000 ''c'' (server_run [Request ''c'' 0, Sweep 500])))"
    by blast
  from e a b c show ?thesis
    by blast
qed

end
